theory Spec2Isabelle
  imports Main "HOL-Library.AList"
begin

section \<open>The constraint controller of gatekeeper\<close>

text \<open>
  A shallow embedding of \<^verbatim>\<open>pkg/controller/constraint/constraint_controller.go\<close>:
  the reconciliation pass \<^verbatim>\<open>ReconcileConstraint.Reconcile\<close>, its helpers and the
  \<^verbatim>\<open>ConstraintsCache\<close>.

  One pass talks to several collaborators whose code lives in other packages: the
  controller switch, the API client, the OPA client, the status reporter and a few
  helper functions. Their answers are the fields of the record \<open>env\<close>; every call
  the pass makes is appended to a trace of events, in the order of the source. The
  object behind the pointer \<^verbatim>\<open>instance\<close> is passed along as a value and returned
  at the end of the pass, together with the cache and the trace.
\<close>

subsection \<open>Data\<close>

text \<open>
  Go's \<^verbatim>\<open>error\<close> interface, as far as the source tells errors apart: the API
  server's not-found answer (\<^verbatim>\<open>errors.IsNotFound\<close>), the OPA client's
  \<^verbatim>\<open>*opa.UnrecognizedConstraintError\<close> (a type assertion in the deletion branch)
  and every other error. Each carries the text that \<^verbatim>\<open>err.Error()\<close> returns.
\<close>

datatype error =
    NotFound string
  | UnrecognizedConstraintError string
  | OtherError string

fun err_Error :: "error \<Rightarrow> string" where
  "err_Error (NotFound s) = s"
| "err_Error (UnrecognizedConstraintError s) = s"
| "err_Error (OtherError s) = s"

fun IsNotFound :: "error \<Rightarrow> bool" where
  "IsNotFound (NotFound s) = True"
| "IsNotFound e = False"

text \<open>The type assertion \<^verbatim>\<open>_, ok := err.(*opa.UnrecognizedConstraintError)\<close>.\<close>

fun is_UnrecognizedConstraintError :: "error \<Rightarrow> bool" where
  "is_UnrecognizedConstraintError (UnrecognizedConstraintError s) = True"
| "is_UnrecognizedConstraintError e = False"

type_synonym EnforcementAction = string
type_synonym Status = string

text \<open>
  Modelled from the spec: the constants \<^verbatim>\<open>metrics.ActiveStatus\<close> and
  \<^verbatim>\<open>metrics.ErrorStatus\<close> of the metrics package, which is not part of the sources;
  the spec names the two statuses \<open>active\<close> and \<open>error\<close>.
\<close>

definition ActiveStatus :: Status where
  "ActiveStatus = ''active''"

definition ErrorStatus :: Status where
  "ErrorStatus = ''error''"

record tags =
  enforcementAction :: EnforcementAction
  status :: Status

text \<open>
  Modelled from the spec: the per-pod status \<^verbatim>\<open>csutil.ByPodStatus\<close> and its
  \<^verbatim>\<open>csutil.Error\<close> entries, declared in a package that is not part of the sources.
  The spec gives the status sub-object an \<open>enforced\<close> flag and a list of error
  messages.
\<close>

datatype cs_Error = Error (Message: string)

record ByPodStatus =
  Enforced :: bool
  Errors :: "cs_Error list"

text \<open>
  The \<^verbatim>\<open>unstructured.Unstructured\<close> object of a constraint, with the parts the pass
  reads: kind, name, deletion timestamp (a pointer: \<open>None\<close> is \<^verbatim>\<open>nil\<close>, and the
  instant \<open>0\<close> stands for Go's zero time), finalizers, the policy content under
  \<^verbatim>\<open>"spec"\<close> and the optional sub-object under \<^verbatim>\<open>"status"\<close>.
\<close>

record resource =
  Kind :: string
  Name :: string
  DeletionTimestamp :: "int option"
  Finalizers :: "string list"
  spec_field :: string
  status_field :: "ByPodStatus option"

fun IsZero :: "int option \<Rightarrow> bool" where
  "IsZero None = True"
| "IsZero (Some t) = (t = 0)"

type_synonym request = string

text \<open>The \<^verbatim>\<open>ConstraintsCache\<close>: a Go map from constraint key to tags, kept as an
  association list with one entry per key.\<close>

type_synonym cache = "(string \<times> tags) list"

datatype event =
    Cs_Enter
  | Cs_Exit
  | Client_Get request
  | Client_Update resource
  | Client_Status_Update resource
  | Opa_GetConstraint resource
  | Opa_AddConstraint resource
  | Opa_RemoveConstraint resource
  | Reporter_reportConstraints tags int
  | Log_Info string
  | Log_Error error string

text \<open>
  The answers of the collaborators during one pass. \<open>client_Update\<close> and
  \<open>client_Status_Update\<close> return the object as the API server sends it back, which
  the client decodes into \<^verbatim>\<open>instance\<close>. The helpers \<^verbatim>\<open>util.GetEnforcementAction\<close>
  and \<^verbatim>\<open>constraints.SemanticEqual\<close> and the tables
  \<^verbatim>\<open>util.KnownEnforcementActions\<close> and \<^verbatim>\<open>metrics.AllStatuses\<close> are parameters;
  so are the errors that \<^verbatim>\<open>csutil.GetHAStatus\<close> and \<^verbatim>\<open>csutil.SetHAStatus\<close> may
  return, which the source checks.
\<close>

record env =
  cs_Enter :: bool
  client_Get :: "request \<Rightarrow> error + resource"
  client_Update :: "resource \<Rightarrow> error + resource"
  client_Status_Update :: "resource \<Rightarrow> error + resource"
  opa_GetConstraint :: "resource \<Rightarrow> error + resource"
  opa_AddConstraint :: "resource \<Rightarrow> error option"
  opa_RemoveConstraint :: "resource \<Rightarrow> error option"
  util_GetEnforcementAction :: "resource \<Rightarrow> error + EnforcementAction"
  csutil_GetHAStatus_err :: "resource \<Rightarrow> error option"
  csutil_SetHAStatus_err :: "resource \<Rightarrow> ByPodStatus \<Rightarrow> error option"
  constraints_SemanticEqual :: "resource \<Rightarrow> resource \<Rightarrow> bool"
  reporter_reportConstraints :: "tags \<Rightarrow> int \<Rightarrow> error option"
  util_KnownEnforcementActions :: "EnforcementAction list"
  metrics_AllStatuses :: "Status list"

subsection \<open>Finalizer helpers\<close>

definition finalizerName :: string where
  "finalizerName = ''finalizers.gatekeeper.sh/constraint''"

fun containsString :: "string \<Rightarrow> string list \<Rightarrow> bool" where
  "containsString s [] = False"
| "containsString s (item # items) = (if item = s then True else containsString s items)"

text \<open>The loop of \<^verbatim>\<open>removeString\<close>, with its accumulator \<^verbatim>\<open>rval\<close>.\<close>

fun removeString_loop :: "string \<Rightarrow> string list \<Rightarrow> string list \<Rightarrow> string list" where
  "removeString_loop s rval [] = rval"
| "removeString_loop s rval (item # items) =
     removeString_loop s (if item \<noteq> s then rval @ [item] else rval) items"

definition removeString :: "string \<Rightarrow> string list \<Rightarrow> string list" where
  "removeString s items = removeString_loop s [] items"

definition HasFinalizer :: "resource \<Rightarrow> bool" where
  "HasFinalizer instance = containsString finalizerName (Finalizers instance)"

definition RemoveFinalizer :: "resource \<Rightarrow> resource" where
  "RemoveFinalizer instance =
     instance\<lparr>Finalizers := removeString finalizerName (Finalizers instance)\<rparr>"

subsection \<open>The constraints cache\<close>

definition NewConstraintsCache :: cache where
  "NewConstraintsCache = []"

definition addConstraintKey :: "string \<Rightarrow> tags \<Rightarrow> cache \<Rightarrow> cache" where
  "addConstraintKey constraintKey t c =
     AList.update constraintKey \<lparr>enforcementAction = enforcementAction t, status = status t\<rparr> c"

definition deleteConstraintKey :: "string \<Rightarrow> cache \<Rightarrow> cache" where
  "deleteConstraintKey constraintKey c = AList.delete constraintKey c"

text \<open>Reading a Go map of counters: a missing key reads as \<open>0\<close>.\<close>

definition lookup0 :: "(tags \<rightharpoonup> int) \<Rightarrow> tags \<Rightarrow> int" where
  "lookup0 totals t = (case totals t of None \<Rightarrow> 0 | Some n \<Rightarrow> n)"

text \<open>
  The first loop of \<^verbatim>\<open>reportTotalConstraints\<close>: \<^verbatim>\<open>totals[v]++\<close> for every value of
  the cache. The counters are Go \<^verbatim>\<open>int\<close>s, converted to \<^verbatim>\<open>int64\<close> for the
  reporter; a count is at most the number of entries of a map held in memory, so
  neither the increment nor the conversion wraps, and the model counts in \<open>int\<close>.
\<close>

fun totals_loop :: "tags list \<Rightarrow> (tags \<rightharpoonup> int) \<Rightarrow> (tags \<rightharpoonup> int)" where
  "totals_loop [] totals = totals"
| "totals_loop (v # vs) totals = totals_loop vs (totals(v \<mapsto> lookup0 totals v + 1))"

text \<open>One call of the reporter; its error is logged and nothing else.\<close>

definition report_one :: "env \<Rightarrow> tags \<Rightarrow> int \<Rightarrow> event list" where
  "report_one r t n =
     Reporter_reportConstraints t n #
       (case reporter_reportConstraints r t n of
          Some err \<Rightarrow> [Log_Error err ''failed to report total constraints'']
        | None \<Rightarrow> [])"

text \<open>\<^verbatim>\<open>reportTotalConstraints\<close> returns the cache it was given and the events of
  the nested loop over the known enforcement actions and statuses.\<close>

definition reportTotalConstraints :: "env \<Rightarrow> cache \<Rightarrow> cache \<times> event list" where
  "reportTotalConstraints r c =
     (let totals = totals_loop (map snd c) Map.empty
      in (c,
          concat (map (\<lambda>action.
            concat (map (\<lambda>st.
              report_one r \<lparr>enforcementAction = action, status = st\<rparr>
                (lookup0 totals \<lparr>enforcementAction = action, status = st\<rparr>))
              (metrics_AllStatuses r)))
            (util_KnownEnforcementActions r))))"

subsection \<open>Status helpers\<close>

text \<open>
  Modelled from the spec: \<^verbatim>\<open>csutil.GetHAStatus\<close> and \<^verbatim>\<open>csutil.SetHAStatus\<close>,
  whose code is not part of the sources. Reading returns the status sub-object of the
  resource, or a fresh empty one when the resource has none; writing replaces the
  sub-object. Either may fail, as the source expects, in which case the resource is
  left as it was.
\<close>

definition GetHAStatus :: "env \<Rightarrow> resource \<Rightarrow> error + ByPodStatus" where
  "GetHAStatus r obj =
     (case csutil_GetHAStatus_err r obj of
        Some e \<Rightarrow> Inl e
      | None \<Rightarrow>
          Inr (case status_field obj of
                 None \<Rightarrow> \<lparr>Enforced = False, Errors = []\<rparr>
               | Some s \<Rightarrow> s))"

definition SetHAStatus :: "env \<Rightarrow> resource \<Rightarrow> ByPodStatus \<Rightarrow> error + resource" where
  "SetHAStatus r obj st =
     (case csutil_SetHAStatus_err r obj st of
        Some e \<Rightarrow> Inl e
      | None \<Rightarrow> Inr (obj\<lparr>status_field := Some st\<rparr>))"

subsection \<open>Registering a constraint\<close>

text \<open>
  \<^verbatim>\<open>instance.DeepCopy()\<close> makes a second object with the same content; what is done
  to the copy does not reach the original. \<^verbatim>\<open>unstructured.RemoveNestedField(obj.Object,
  "status")\<close> deletes the status of the object it is given.
\<close>

definition DeepCopy :: "resource \<Rightarrow> resource" where
  "DeepCopy obj = obj"

definition RemoveNestedField_status :: "resource \<Rightarrow> resource" where
  "RemoveNestedField_status obj = obj\<lparr>status_field := None\<rparr>"

text \<open>
  \<^verbatim>\<open>cacheConstraint\<close> returns the caller's object as the call leaves it, the object
  handed to \<^verbatim>\<open>AddConstraint\<close>, and the error of \<^verbatim>\<open>AddConstraint\<close>.
\<close>

definition cacheConstraint :: "env \<Rightarrow> resource \<Rightarrow> resource \<times> resource \<times> error option" where
  "cacheConstraint r instance =
     (let obj = DeepCopy instance;
          obj = RemoveNestedField_status obj
      in (instance, obj, opa_AddConstraint r obj))"

subsection \<open>The reconciliation pass\<close>

text \<open>
  What a pass leaves behind: the \<^verbatim>\<open>reconcile.Result\<close> (its \<^verbatim>\<open>Requeue\<close> flag) and
  the error it returns, the object behind \<^verbatim>\<open>instance\<close> and the local \<^verbatim>\<open>status\<close>
  at the return (\<open>None\<close> when the pass returned before they were set), the cache,
  the trace of calls, and the flag \<^verbatim>\<open>reportMetrics\<close> read by the deferred function.
\<close>

record outcome =
  Requeue :: bool
  err :: "error option"
  inst :: "resource option"
  status_var :: "ByPodStatus option"
  cache_out :: cache
  trace :: "event list"
  reportMetrics :: bool

definition logAddition :: event where
  "logAddition = Log_Info ''constraint added to OPA''"

definition logRemoval :: event where
  "logRemoval = Log_Info ''constraint removed from OPA''"

text \<open>\<^verbatim>\<open>strings.Join\<close>.\<close>

fun Join :: "string list \<Rightarrow> string \<Rightarrow> string" where
  "Join [] sep = []"
| "Join [x] sep = x"
| "Join (x # y # ys) sep = x @ sep @ Join (y # ys) sep"

text \<open>
  Lines 212 to 224: registration succeeded or was skipped. \<^verbatim>\<open>status.Enforced\<close>
  is set, the status is written to the resource and sent to the API server, and the
  cache entry becomes active.
\<close>

definition Reconcile_enforced ::
  "env \<Rightarrow> string \<Rightarrow> EnforcementAction \<Rightarrow> resource \<Rightarrow> ByPodStatus \<Rightarrow> cache \<Rightarrow> event list \<Rightarrow> outcome" where
  "Reconcile_enforced r constraintKey action instance st c tr =
     (let st = st\<lparr>Enforced := True\<rparr>
      in case SetHAStatus r instance st of
           Inl e \<Rightarrow>
             \<lparr>Requeue = False, err = Some e, inst = Some instance, status_var = Some st,
              cache_out = c, trace = tr, reportMetrics = False\<rparr>
         | Inr instance \<Rightarrow>
             (let tr = tr @ [Client_Status_Update instance]
              in case client_Status_Update r instance of
                   Inl e \<Rightarrow>
                     \<lparr>Requeue = True, err = None, inst = Some instance, status_var = Some st,
                      cache_out = c, trace = tr, reportMetrics = False\<rparr>
                 | Inr instance \<Rightarrow>
                     \<lparr>Requeue = False, err = None, inst = Some instance, status_var = Some st,
                      cache_out =
                        addConstraintKey constraintKey
                          \<lparr>enforcementAction = action, status = ActiveStatus\<rparr> c,
                      trace = tr, reportMetrics = True\<rparr>))"

text \<open>
  Lines 196 to 208: \<^verbatim>\<open>cacheConstraint\<close> returned the error \<open>e\<close>. The two errors
  \<^verbatim>\<open>err2\<close> are logged and do not change what the pass returns.
\<close>

definition Reconcile_add_failed ::
  "env \<Rightarrow> string \<Rightarrow> EnforcementAction \<Rightarrow> resource \<Rightarrow> ByPodStatus \<Rightarrow> cache \<Rightarrow> event list \<Rightarrow> error \<Rightarrow> outcome" where
  "Reconcile_add_failed r constraintKey action instance st c tr e =
     (let c = addConstraintKey constraintKey
                \<lparr>enforcementAction = action, status = ErrorStatus\<rparr> c;
          st = st\<lparr>Errors := Errors st @ [Error (err_Error e)]\<rparr>;
          (instance, tr) =
            (case SetHAStatus r instance st of
               Inl err2 \<Rightarrow> (instance, tr @ [Log_Error err2 ''could not set constraint error status''])
             | Inr instance \<Rightarrow> (instance, tr));
          tr = tr @ [Client_Status_Update instance];
          (instance, tr) =
            (case client_Status_Update r instance of
               Inl err2 \<Rightarrow> (instance, tr @ [Log_Error err2 ''could not report constraint error status''])
             | Inr instance \<Rightarrow> (instance, tr))
      in \<lparr>Requeue = False, err = Some e, inst = Some instance, status_var = Some st,
          cache_out = c, trace = tr, reportMetrics = True\<rparr>)"

text \<open>
  Lines 185 to 211, then the two blocks above: the error list of the status is
  cleared and written to the resource, the engine is asked for its copy of the
  constraint, and \<^verbatim>\<open>cacheConstraint\<close> runs when that call failed or the copy is not
  semantically equal (\<^verbatim>\<open>||\<close> does not evaluate \<^verbatim>\<open>SemanticEqual\<close> after an error).
\<close>

definition Reconcile_sync ::
  "env \<Rightarrow> string \<Rightarrow> EnforcementAction \<Rightarrow> resource \<Rightarrow> cache \<Rightarrow> event list \<Rightarrow> outcome" where
  "Reconcile_sync r constraintKey action instance c tr =
     (let tr = tr @ [Log_Info ''handling constraint update'']
      in case GetHAStatus r instance of
           Inl e \<Rightarrow>
             \<lparr>Requeue = False, err = Some e, inst = Some instance, status_var = None,
              cache_out = c, trace = tr, reportMetrics = False\<rparr>
         | Inr st \<Rightarrow>
             (let st = st\<lparr>Errors := []\<rparr>
              in case SetHAStatus r instance st of
                   Inl e \<Rightarrow>
                     \<lparr>Requeue = False, err = Some e, inst = Some instance, status_var = Some st,
                      cache_out = c, trace = tr, reportMetrics = False\<rparr>
                 | Inr instance \<Rightarrow>
                     (let tr = tr @ [Opa_GetConstraint instance]
                      in if (case opa_GetConstraint r instance of
                               Inl e \<Rightarrow> True
                             | Inr c' \<Rightarrow> \<not> constraints_SemanticEqual r instance c')
                         then
                           (case cacheConstraint r instance of
                              (instance, obj, res) \<Rightarrow>
                                (let tr = tr @ [Opa_AddConstraint obj]
                                 in case res of
                                      Some e \<Rightarrow>
                                        Reconcile_add_failed r constraintKey action instance st c tr e
                                    | None \<Rightarrow>
                                        Reconcile_enforced r constraintKey action instance st c
                                          (tr @ [logAddition])))
                         else Reconcile_enforced r constraintKey action instance st c tr)))"

text \<open>
  Lines 172 to 184, for a resource without the finalizer: the status is copied
  (\<^verbatim>\<open>NestedFieldCopy\<close>), the finalizer appended and the resource updated. The answer
  of the API server replaces the object behind \<^verbatim>\<open>instance\<close>; then the copied status,
  unless it is \<^verbatim>\<open>nil\<close>, is written back into it (\<^verbatim>\<open>SetNestedField\<close> with the single
  path element \<^verbatim>\<open>"status"\<close> has no failing case). \<open>Inl\<close> is the early return after
  a failed update, with the object sent.
\<close>

definition Reconcile_attach :: "env \<Rightarrow> resource \<Rightarrow> event list \<Rightarrow> (resource + resource) \<times> event list" where
  "Reconcile_attach r instance tr =
     (let st = status_field instance;
          instance = instance\<lparr>Finalizers := Finalizers instance @ [finalizerName]\<rparr>;
          tr = tr @ [Client_Update instance]
      in case client_Update r instance of
           Inl e \<Rightarrow> (Inl instance, tr)
         | Inr instance \<Rightarrow>
             (Inr (case st of
                     None \<Rightarrow> instance
                   | Some s \<Rightarrow> instance\<lparr>status_field := Some s\<rparr>), tr))"

text \<open>Lines 226 to 242: the resource has a deletion timestamp.\<close>

definition Reconcile_delete ::
  "env \<Rightarrow> string \<Rightarrow> resource \<Rightarrow> cache \<Rightarrow> event list \<Rightarrow> outcome" where
  "Reconcile_delete r constraintKey instance c tr =
     (if HasFinalizer instance then
        (let tr = tr @ [Opa_RemoveConstraint instance];
             res = opa_RemoveConstraint r instance
         in if (case res of Some e \<Rightarrow> \<not> is_UnrecognizedConstraintError e | None \<Rightarrow> False) then
              \<lparr>Requeue = False, err = res, inst = Some instance, status_var = None,
               cache_out = c, trace = tr @ [logRemoval], reportMetrics = False\<rparr>
            else
              (let tr = tr @ [logRemoval];
                   instance = RemoveFinalizer instance;
                   tr = tr @ [Client_Update instance]
               in case client_Update r instance of
                    Inl e \<Rightarrow>
                      \<lparr>Requeue = True, err = None, inst = Some instance, status_var = None,
                       cache_out = c, trace = tr, reportMetrics = False\<rparr>
                  | Inr instance \<Rightarrow>
                      \<lparr>Requeue = False, err = None, inst = Some instance, status_var = None,
                       cache_out = deleteConstraintKey constraintKey c,
                       trace = tr, reportMetrics = True\<rparr>))
      else
        \<lparr>Requeue = False, err = None, inst = Some instance, status_var = None,
         cache_out = c, trace = tr, reportMetrics = False\<rparr>)"

text \<open>
  The body of \<^verbatim>\<open>Reconcile\<close> up to its \<^verbatim>\<open>return\<close>. The function that reports the
  metrics is deferred only after the enforcement action was read; the returns before
  that leave \<^verbatim>\<open>reportMetrics\<close> false, which has the same effect.
\<close>

definition Reconcile_body :: "env \<Rightarrow> request \<Rightarrow> cache \<Rightarrow> outcome" where
  "Reconcile_body r req c =
     (let tr = [Cs_Enter]
      in if \<not> cs_Enter r then
           \<lparr>Requeue = False, err = None, inst = None, status_var = None, cache_out = c,
            trace = tr @ [Log_Info ''ignoring request, constraint controller disabled''],
            reportMetrics = False\<rparr>
         else
           (let tr = tr @ [Client_Get req]
            in case client_Get r req of
                 Inl e \<Rightarrow>
                   \<lparr>Requeue = False, err = (if IsNotFound e then None else Some e), inst = None,
                    status_var = None, cache_out = c, trace = tr, reportMetrics = False\<rparr>
               | Inr instance \<Rightarrow>
                   (let constraintKey = Join [Kind instance, Name instance] ''/''
                    in case util_GetEnforcementAction r instance of
                         Inl e \<Rightarrow>
                           \<lparr>Requeue = False, err = Some e, inst = Some instance,
                            status_var = None, cache_out = c, trace = tr, reportMetrics = False\<rparr>
                       | Inr action \<Rightarrow>
                           if IsZero (DeletionTimestamp instance) then
                             (if \<not> HasFinalizer instance then
                                (case Reconcile_attach r instance tr of
                                   (Inl instance, tr) \<Rightarrow>
                                     \<lparr>Requeue = True, err = None, inst = Some instance,
                                      status_var = None, cache_out = c, trace = tr,
                                      reportMetrics = False\<rparr>
                                 | (Inr instance, tr) \<Rightarrow>
                                     Reconcile_sync r constraintKey action instance c tr)
                              else Reconcile_sync r constraintKey action instance c tr)
                           else Reconcile_delete r constraintKey instance c tr)))"

text \<open>
  The deferred functions run at the return, last deferred first: the metrics report
  when \<^verbatim>\<open>reportMetrics\<close> is set, then \<^verbatim>\<open>r.cs.Exit()\<close>.
\<close>

definition Reconcile :: "env \<Rightarrow> request \<Rightarrow> cache \<Rightarrow> outcome" where
  "Reconcile r req c =
     (let out = Reconcile_body r req c;
          (c', evs) = (if reportMetrics out then reportTotalConstraints r (cache_out out)
                       else (cache_out out, []))
      in out\<lparr>cache_out := c', trace := trace out @ evs @ [Cs_Exit]\<rparr>)"

subsection \<open>Reading a pass\<close>

text \<open>
  The definitions of this subsection are not code of the controller; they name what
  the properties below talk about.

  \<open>sync_entry\<close> is the prefix of the pass that leads to line 185: the object behind
  \<^verbatim>\<open>instance\<close> and the trace when an active pass starts to synchronise, \<open>None\<close>
  when the pass returns before or takes the deletion branch.
\<close>

definition sync_entry :: "env \<Rightarrow> request \<Rightarrow> (resource \<times> event list) option" where
  "sync_entry r req =
     (if \<not> cs_Enter r then None
      else case client_Get r req of
             Inl e \<Rightarrow> None
           | Inr instance \<Rightarrow>
               (case util_GetEnforcementAction r instance of
                  Inl e \<Rightarrow> None
                | Inr action \<Rightarrow>
                    if IsZero (DeletionTimestamp instance) then
                      (if \<not> HasFinalizer instance then
                         (case Reconcile_attach r instance [Cs_Enter, Client_Get req] of
                            (Inl instance, tr) \<Rightarrow> None
                          | (Inr instance, tr) \<Rightarrow> Some (instance, tr))
                       else Some (instance, [Cs_Enter, Client_Get req]))
                    else None))"

text \<open>The condition of line 194: the fetch failed, or the engine's copy is not
  semantically equal.\<close>

definition content_differs :: "env \<Rightarrow> resource \<Rightarrow> bool" where
  "content_differs r i =
     (case opa_GetConstraint r i of
        Inl e \<Rightarrow> True
      | Inr c' \<Rightarrow> \<not> constraints_SemanticEqual r i c')"

text \<open>The resource with the finalizer appended unless it is there.\<close>

definition marked :: "resource \<Rightarrow> resource" where
  "marked i = (if HasFinalizer i then i else i\<lparr>Finalizers := Finalizers i @ [finalizerName]\<rparr>)"

text \<open>Calls of the OPA client, and those among them that change the engine.\<close>

fun is_opa_call :: "event \<Rightarrow> bool" where
  "is_opa_call (Opa_GetConstraint i) = True"
| "is_opa_call (Opa_AddConstraint i) = True"
| "is_opa_call (Opa_RemoveConstraint i) = True"
| "is_opa_call ev = False"

fun is_opa_write :: "event \<Rightarrow> bool" where
  "is_opa_write (Opa_AddConstraint i) = True"
| "is_opa_write (Opa_RemoveConstraint i) = True"
| "is_opa_write ev = False"

text \<open>Calls of the API client that write the resource.\<close>

fun is_client_write :: "event \<Rightarrow> bool" where
  "is_client_write (Client_Update i) = True"
| "is_client_write (Client_Status_Update i) = True"
| "is_client_write ev = False"

text \<open>The counts handed to the reporter, in the order of the calls.\<close>

fun report_of :: "event \<Rightarrow> (tags \<times> int) list" where
  "report_of (Reporter_reportConstraints t n) = [(t, n)]"
| "report_of ev = []"

definition reports_of :: "event list \<Rightarrow> (tags \<times> int) list" where
  "reports_of tr = concat (map report_of tr)"

text \<open>The number of entries of the cache that carry the tags \<open>t\<close>.\<close>

definition count_tags :: "cache \<Rightarrow> tags \<Rightarrow> int" where
  "count_tags c t = int (length (filter (\<lambda>kv. snd kv = t) c))"

subsection \<open>Successive passes\<close>

text \<open>
  Modelled from the spec: the Resource Store Gateway and the Policy Engine Gateway
  between two passes, which are services outside the sources. The store keeps, by
  name, the resource last written and answers a write with the object written; it
  drops a resource whose deletion is requested once its finalizers are gone. The
  engine keeps, by constraint key, the object last added. Neither fails.
\<close>

record world =
  w_store :: "string \<rightharpoonup> resource"
  w_engine :: "string \<rightharpoonup> resource"
  w_cache :: cache

definition constraintKey_of :: "resource \<Rightarrow> string" where
  "constraintKey_of instance = Join [Kind instance, Name instance] ''/''"

definition world_env :: "env \<Rightarrow> world \<Rightarrow> env" where
  "world_env r w =
     r\<lparr>cs_Enter := True,
       client_Get := (\<lambda>req. case w_store w req of
                              None \<Rightarrow> Inl (NotFound req)
                            | Some instance \<Rightarrow> Inr instance),
       client_Update := Inr,
       client_Status_Update := Inr,
       opa_GetConstraint := (\<lambda>instance. case w_engine w (constraintKey_of instance) of
                                           None \<Rightarrow> Inl (OtherError ''no such constraint'')
                                         | Some c' \<Rightarrow> Inr c'),
       opa_AddConstraint := (\<lambda>obj. None),
       opa_RemoveConstraint := (\<lambda>instance. None)\<rparr>"

definition store_write :: "resource \<Rightarrow> (string \<rightharpoonup> resource) \<Rightarrow> (string \<rightharpoonup> resource)" where
  "store_write instance store =
     (if \<not> IsZero (DeletionTimestamp instance) \<and> Finalizers instance = []
      then store(Name instance := None)
      else store(Name instance \<mapsto> instance))"

fun apply_event :: "event \<Rightarrow> world \<Rightarrow> world" where
  "apply_event (Client_Update instance) w = w\<lparr>w_store := store_write instance (w_store w)\<rparr>"
| "apply_event (Client_Status_Update instance) w = w\<lparr>w_store := store_write instance (w_store w)\<rparr>"
| "apply_event (Opa_AddConstraint obj) w =
     w\<lparr>w_engine := (w_engine w)(constraintKey_of obj \<mapsto> obj)\<rparr>"
| "apply_event (Opa_RemoveConstraint instance) w =
     w\<lparr>w_engine := (w_engine w)(constraintKey_of instance := None)\<rparr>"
| "apply_event ev w = w"

text \<open>One pass in a world: the calls of the pass are applied to store and engine in
  the order of the trace, and the cache is the one the pass leaves.\<close>

definition pass :: "env \<Rightarrow> request \<Rightarrow> world \<Rightarrow> world \<times> outcome" where
  "pass r req w =
     (let out = Reconcile (world_env r w) req (w_cache w)
      in ((fold apply_event (trace out) w)\<lparr>w_cache := cache_out out\<rparr>, out))"

subsection \<open>Example scenarios\<close>

text \<open>The resource of the scenarios: kind \<open>K\<close>, name \<open>a\<close>, content \<open>X\<close>, no finalizer,
  no status.\<close>

definition res_a :: resource where
  "res_a = \<lparr>Kind = ''K'', Name = ''a'', DeletionTimestamp = None, Finalizers = [],
            spec_field = ''X'', status_field = None\<rparr>"

text \<open>An environment in which every call succeeds and the engine does not know the
  constraint.\<close>

definition env_a :: env where
  "env_a =
     \<lparr>cs_Enter = True,
      client_Get = (\<lambda>req. Inr res_a),
      client_Update = Inr,
      client_Status_Update = Inr,
      opa_GetConstraint = (\<lambda>instance. Inl (OtherError ''no such constraint'')),
      opa_AddConstraint = (\<lambda>obj. None),
      opa_RemoveConstraint = (\<lambda>instance. None),
      util_GetEnforcementAction = (\<lambda>instance. Inr ''deny''),
      csutil_GetHAStatus_err = (\<lambda>instance. None),
      csutil_SetHAStatus_err = (\<lambda>instance st. None),
      constraints_SemanticEqual = (\<lambda>a b. spec_field a = spec_field b),
      reporter_reportConstraints = (\<lambda>t n. None),
      util_KnownEnforcementActions = [''deny'', ''dryrun''],
      metrics_AllStatuses = [''active'', ''error'']\<rparr>"

text \<open>The same resource with the finalizer and an earlier status, and with deletion
  requested.\<close>

definition res_fin :: resource where
  "res_fin = res_a\<lparr>Finalizers := [finalizerName],
                   status_field := Some \<lparr>Enforced = True, Errors = []\<rparr>\<rparr>"

definition res_del :: resource where
  "res_del = res_fin\<lparr>DeletionTimestamp := Some 1\<rparr>"

definition cache_a :: cache where
  "cache_a = [(''K/a'', \<lparr>enforcementAction = ''deny'', status = ''active''\<rparr>)]"

definition world_a :: world where
  "world_a = \<lparr>w_store = [''a'' \<mapsto> res_a], w_engine = Map.empty, w_cache = []\<rparr>"

text \<open>The enforcement action of a resource under deletion cannot be read.\<close>

definition env_bad_action :: env where
  "env_bad_action =
     env_a\<lparr>client_Get := (\<lambda>req. Inr res_del),
           util_GetEnforcementAction := (\<lambda>instance. Inl (OtherError ''bad action''))\<rparr>"

text \<open>The engine rejects the constraint, and the status write that follows fails too.\<close>

definition env_add_fails :: env where
  "env_add_fails =
     env_a\<lparr>client_Get := (\<lambda>req. Inr res_fin),
           opa_AddConstraint := (\<lambda>obj. Some (OtherError ''bad rule'')),
           client_Status_Update := (\<lambda>instance. Inl (OtherError ''conflict''))\<rparr>"

text \<open>The resource carries the finalizer; the engine cannot return its copy.\<close>

definition env_fetch_fails :: env where
  "env_fetch_fails = env_a\<lparr>client_Get := (\<lambda>req. Inr res_fin)\<rparr>"

text \<open>Deletion is requested and the resource carries the finalizer. In the first
  environment the engine removes the constraint and the update that removes the
  finalizer fails; in the second the engine does not recognise the constraint; in the
  third the engine fails otherwise.\<close>

definition env_delete_update_fails :: env where
  "env_delete_update_fails =
     env_a\<lparr>client_Get := (\<lambda>req. Inr res_del),
           client_Update := (\<lambda>instance. Inl (OtherError ''conflict''))\<rparr>"

definition env_delete :: env where
  "env_delete =
     env_a\<lparr>client_Get := (\<lambda>req. Inr res_del),
           opa_RemoveConstraint := (\<lambda>instance. Some (UnrecognizedConstraintError ''K''))\<rparr>"

definition env_remove_fails :: env where
  "env_remove_fails =
     env_a\<lparr>client_Get := (\<lambda>req. Inr res_del),
           opa_RemoveConstraint := (\<lambda>instance. Some (OtherError ''engine down''))\<rparr>"

text \<open>The resource carries the finalizer, registration succeeds, the status write
  fails.\<close>

definition env_status_write_fails :: env where
  "env_status_write_fails =
     env_a\<lparr>client_Get := (\<lambda>req. Inr res_fin),
           client_Status_Update := (\<lambda>instance. Inl (OtherError ''conflict''))\<rparr>"

text \<open>A resource without the finalizer that carries a status, and an API server
  that answers an update with the object stripped of its status.\<close>

definition res_st :: resource where
  "res_st = res_a\<lparr>status_field := Some \<lparr>Enforced = False, Errors = [Error ''old'']\<rparr>\<rparr>"

definition env_drops_status :: env where
  "env_drops_status =
     env_a\<lparr>client_Get := (\<lambda>req. Inr res_st),
           client_Update := (\<lambda>instance. Inr (instance\<lparr>status_field := None\<rparr>))\<rparr>"

text \<open>The update that attaches the finalizer fails.\<close>

definition env_attach_fails :: env where
  "env_attach_fails = env_a\<lparr>client_Update := (\<lambda>instance. Inl (OtherError ''conflict''))\<rparr>"

text \<open>A cache with three entries.\<close>

definition cache_ab :: cache where
  "cache_ab = [(''K/a'', \<lparr>enforcementAction = ''deny'', status = ''active''\<rparr>),
               (''K/b'', \<lparr>enforcementAction = ''deny'', status = ''active''\<rparr>),
               (''K/c'', \<lparr>enforcementAction = ''dryrun'', status = ''error''\<rparr>)]"

section \<open>Properties\<close>

subsection \<open>Unfolding\<close>

lemmas Reconcile_defs =
  Reconcile_def Reconcile_body_def Reconcile_attach_def Reconcile_sync_def
  Reconcile_enforced_def Reconcile_add_failed_def Reconcile_delete_def
  cacheConstraint_def DeepCopy_def RemoveNestedField_status_def
  GetHAStatus_def SetHAStatus_def HasFinalizer_def RemoveFinalizer_def removeString_def
  reportTotalConstraints_def report_one_def lookup0_def
  addConstraintKey_def deleteConstraintKey_def ActiveStatus_def ErrorStatus_def
  logAddition_def logRemoval_def finalizerName_def Let_def

lemmas scenario_defs = env_a_def res_a_def res_fin_def res_del_def cache_a_def world_a_def

subsection \<open>The calls of a pass\<close>

lemma report_one_opa: "filter is_opa_call (report_one r t n) = []"
  by (simp add: report_one_def split: option.splits)

lemma reportTotalConstraints_opa: "filter is_opa_call (snd (reportTotalConstraints r c)) = []"
  by (simp add: reportTotalConstraints_def Let_def filter_concat report_one_opa comp_def)

lemma reportTotalConstraints_fst: "fst (reportTotalConstraints r c) = c"
  by (simp add: reportTotalConstraints_def Let_def)

lemma Reconcile_trace:
  "trace (Reconcile r req c) =
     trace (Reconcile_body r req c) @
     (if reportMetrics (Reconcile_body r req c)
      then snd (reportTotalConstraints r (cache_out (Reconcile_body r req c))) else []) @ [Cs_Exit]"
  by (simp add: Reconcile_def Let_def split: prod.splits)

lemma Reconcile_fields:
  "err (Reconcile r req c) = err (Reconcile_body r req c)"
  "Requeue (Reconcile r req c) = Requeue (Reconcile_body r req c)"
  "inst (Reconcile r req c) = inst (Reconcile_body r req c)"
  "status_var (Reconcile r req c) = status_var (Reconcile_body r req c)"
  "cache_out (Reconcile r req c) = cache_out (Reconcile_body r req c)"
  "reportMetrics (Reconcile r req c) = reportMetrics (Reconcile_body r req c)"
  by (simp_all add: Reconcile_def Let_def reportTotalConstraints_def split: prod.splits)

lemma Reconcile_opa_calls:
  "filter is_opa_call (trace (Reconcile r req c)) = filter is_opa_call (trace (Reconcile_body r req c))"
  by (simp add: Reconcile_trace reportTotalConstraints_opa)

lemma attach_opa:
  "Reconcile_attach r instance tr = (x, tr') \<Longrightarrow> filter is_opa_call tr' = filter is_opa_call tr"
  by (auto simp: Reconcile_attach_def Let_def split: sum.splits)

lemma sync_entry_opa: "sync_entry r req = Some (i, tr) \<Longrightarrow> filter is_opa_call tr = []"
  by (auto simp: sync_entry_def split: if_splits sum.splits prod.splits dest: attach_opa)

lemma body_sync:
  "sync_entry r req = Some (i, tr) \<Longrightarrow>
   \<exists>instance0 action. client_Get r req = Inr instance0 \<and> util_GetEnforcementAction r instance0 = Inr action
     \<and> cs_Enter r \<and> IsZero (DeletionTimestamp instance0)
     \<and> Reconcile_body r req c = Reconcile_sync r (Join [Kind instance0, Name instance0] ''/'') action i c tr"
  by (auto simp: sync_entry_def Reconcile_body_def Let_def split: if_splits sum.splits prod.splits)

lemma delete_opa:
  "filter is_opa_call (trace (Reconcile_delete r k i c tr)) =
     filter is_opa_call tr @ (if HasFinalizer i then [Opa_RemoveConstraint i] else [])"
  by (simp add: Reconcile_delete_def Let_def logRemoval_def split: sum.splits option.splits)

lemma body_no_sync:
  "sync_entry r req = None \<Longrightarrow>
   filter is_opa_call (trace (Reconcile_body r req c)) =
     (case client_Get r req of
        Inr i \<Rightarrow> (if cs_Enter r \<and> \<not> IsZero (DeletionTimestamp i) \<and> HasFinalizer i
                   \<and> (\<exists>a. util_GetEnforcementAction r i = Inr a)
                  then [Opa_RemoveConstraint i] else [])
      | Inl e \<Rightarrow> [])"
  by (auto simp: sync_entry_def Reconcile_body_def Let_def delete_opa split: if_splits sum.splits prod.splits
      dest: attach_opa)


lemma enforced_opa:
  "filter is_opa_call (trace (Reconcile_enforced r k a i st c tr)) = filter is_opa_call tr"
  by (simp add: Reconcile_enforced_def Let_def split: sum.splits)

lemma add_failed_opa:
  "filter is_opa_call (trace (Reconcile_add_failed r k a i st c tr e)) = filter is_opa_call tr"
  by (simp add: Reconcile_add_failed_def Let_def split: sum.splits prod.splits)

lemma sync_add_failed:
  "GetHAStatus r i = Inr st0 \<Longrightarrow> SetHAStatus r i (st0\<lparr>Errors := []\<rparr>) = Inr i1 \<Longrightarrow>
   content_differs r i1 \<Longrightarrow> opa_AddConstraint r (i1\<lparr>status_field := None\<rparr>) = Some e \<Longrightarrow>
   Reconcile_sync r k a i c tr =
     Reconcile_add_failed r k a i1 (st0\<lparr>Errors := []\<rparr>) c
       (tr @ [Log_Info ''handling constraint update'', Opa_GetConstraint i1,
              Opa_AddConstraint (i1\<lparr>status_field := None\<rparr>)]) e"
  by (simp add: Reconcile_sync_def content_differs_def cacheConstraint_def DeepCopy_def
      RemoveNestedField_status_def Let_def)

lemma sync_added:
  "GetHAStatus r i = Inr st0 \<Longrightarrow> SetHAStatus r i (st0\<lparr>Errors := []\<rparr>) = Inr i1 \<Longrightarrow>
   content_differs r i1 \<Longrightarrow> opa_AddConstraint r (i1\<lparr>status_field := None\<rparr>) = None \<Longrightarrow>
   Reconcile_sync r k a i c tr =
     Reconcile_enforced r k a i1 (st0\<lparr>Errors := []\<rparr>) c
       (tr @ [Log_Info ''handling constraint update'', Opa_GetConstraint i1,
              Opa_AddConstraint (i1\<lparr>status_field := None\<rparr>), logAddition])"
  by (simp add: Reconcile_sync_def content_differs_def cacheConstraint_def DeepCopy_def
      RemoveNestedField_status_def Let_def)

lemma sync_skipped:
  "GetHAStatus r i = Inr st0 \<Longrightarrow> SetHAStatus r i (st0\<lparr>Errors := []\<rparr>) = Inr i1 \<Longrightarrow>
   \<not> content_differs r i1 \<Longrightarrow>
   Reconcile_sync r k a i c tr =
     Reconcile_enforced r k a i1 (st0\<lparr>Errors := []\<rparr>) c
       (tr @ [Log_Info ''handling constraint update'', Opa_GetConstraint i1])"
  by (simp add: Reconcile_sync_def content_differs_def Let_def)

lemma sync_opa:
  "filter is_opa_call (trace (Reconcile_sync r k a i c tr)) =
     filter is_opa_call tr @
     (case GetHAStatus r i of
        Inl e \<Rightarrow> []
      | Inr st0 \<Rightarrow>
          (case SetHAStatus r i (st0\<lparr>Errors := []\<rparr>) of
             Inl e \<Rightarrow> []
           | Inr i1 \<Rightarrow>
               Opa_GetConstraint i1 #
                 (if content_differs r i1 then [Opa_AddConstraint (i1\<lparr>status_field := None\<rparr>)]
                  else [])))"
proof (cases "GetHAStatus r i")
  case (Inl e)
  then show ?thesis by (simp add: Reconcile_sync_def Let_def)
next
  case (Inr st0)
  note g = this
  show ?thesis
  proof (cases "SetHAStatus r i (st0\<lparr>Errors := []\<rparr>)")
    case (Inl e)
    with g show ?thesis by (simp add: Reconcile_sync_def Let_def)
  next
    case (Inr i1)
    note s = this
    show ?thesis
    proof (cases "content_differs r i1")
      case False
      with g s show ?thesis by (simp add: sync_skipped enforced_opa)
    next
      case True
      with g s show ?thesis
        by (cases "opa_AddConstraint r (i1\<lparr>status_field := None\<rparr>)")
           (simp_all add: sync_added sync_add_failed enforced_opa add_failed_opa logAddition_def)
    qed
  qed
qed

text \<open>What the pass has done when it asks the engine for its copy.\<close>

lemma get_event_inversion:
  assumes "Opa_GetConstraint i1 \<in> set (trace (Reconcile r req c))"
  shows "\<exists>instance0 action i tr st0.
           cs_Enter r \<and> client_Get r req = Inr instance0
         \<and> util_GetEnforcementAction r instance0 = Inr action
         \<and> IsZero (DeletionTimestamp instance0)
         \<and> sync_entry r req = Some (i, tr)
         \<and> GetHAStatus r i = Inr st0
         \<and> SetHAStatus r i (st0\<lparr>Errors := []\<rparr>) = Inr i1
         \<and> Reconcile_body r req c =
             Reconcile_sync r (Join [Kind instance0, Name instance0] ''/'') action i c tr"
proof -
  from assms have m: "Opa_GetConstraint i1 \<in> set (filter is_opa_call (trace (Reconcile_body r req c)))"
    by (simp add: Reconcile_opa_calls [symmetric])
  show ?thesis
  proof (cases "sync_entry r req")
    case None
    with m show ?thesis
      by (auto simp: body_no_sync split: sum.splits if_splits)
  next
    case (Some p)
    obtain i tr where p: "p = (i, tr)" by (cases p)
    from Some p have se: "sync_entry r req = Some (i, tr)" by simp
    from body_sync [OF se, of c] obtain instance0 action where
      b: "client_Get r req = Inr instance0" "util_GetEnforcementAction r instance0 = Inr action"
         "cs_Enter r" "IsZero (DeletionTimestamp instance0)"
         "Reconcile_body r req c = Reconcile_sync r (Join [Kind instance0, Name instance0] ''/'') action i c tr"
      by blast
    from m b(5) have "Opa_GetConstraint i1 \<in> set (filter is_opa_call
        (trace (Reconcile_sync r (Join [Kind instance0, Name instance0] ''/'') action i c tr)))"
      by simp
    then have "\<exists>st0. GetHAStatus r i = Inr st0 \<and> SetHAStatus r i (st0\<lparr>Errors := []\<rparr>) = Inr i1"
      unfolding sync_opa sync_entry_opa [OF se]
      by (cases "GetHAStatus r i"; simp; cases "SetHAStatus r i (projr (GetHAStatus r i)\<lparr>Errors := []\<rparr>)"; simp split: if_splits)
    with b se show ?thesis by blast
  qed
qed

lemma add_event_inversion:
  assumes "Opa_AddConstraint obj \<in> set (trace (Reconcile r req c))"
  shows "\<exists>instance0 action i tr st0 i1.
           cs_Enter r \<and> client_Get r req = Inr instance0
         \<and> util_GetEnforcementAction r instance0 = Inr action
         \<and> IsZero (DeletionTimestamp instance0)
         \<and> sync_entry r req = Some (i, tr)
         \<and> GetHAStatus r i = Inr st0
         \<and> SetHAStatus r i (st0\<lparr>Errors := []\<rparr>) = Inr i1
         \<and> content_differs r i1 \<and> obj = i1\<lparr>status_field := None\<rparr>
         \<and> Reconcile_body r req c =
             Reconcile_sync r (Join [Kind instance0, Name instance0] ''/'') action i c tr"
proof -
  from assms have m: "Opa_AddConstraint obj \<in> set (filter is_opa_call (trace (Reconcile_body r req c)))"
    by (simp add: Reconcile_opa_calls [symmetric])
  show ?thesis
  proof (cases "sync_entry r req")
    case None
    with m show ?thesis
      by (auto simp: body_no_sync split: sum.splits if_splits)
  next
    case (Some p)
    obtain i tr where p: "p = (i, tr)" by (cases p)
    from Some p have se: "sync_entry r req = Some (i, tr)" by simp
    from body_sync [OF se, of c] obtain instance0 action where
      b: "client_Get r req = Inr instance0" "util_GetEnforcementAction r instance0 = Inr action"
         "cs_Enter r" "IsZero (DeletionTimestamp instance0)"
         "Reconcile_body r req c = Reconcile_sync r (Join [Kind instance0, Name instance0] ''/'') action i c tr"
      by blast
    from m b(5) have "Opa_AddConstraint obj \<in> set (filter is_opa_call
        (trace (Reconcile_sync r (Join [Kind instance0, Name instance0] ''/'') action i c tr)))"
      by simp
    then have "\<exists>st0 i1. GetHAStatus r i = Inr st0 \<and> SetHAStatus r i (st0\<lparr>Errors := []\<rparr>) = Inr i1
        \<and> content_differs r i1 \<and> obj = i1\<lparr>status_field := None\<rparr>"
      unfolding sync_opa sync_entry_opa [OF se]
      by (cases "GetHAStatus r i"; simp; cases "SetHAStatus r i (projr (GetHAStatus r i)\<lparr>Errors := []\<rparr>)"; simp split: if_splits)
    with b se show ?thesis by blast
  qed
qed

subsection \<open>The enforcement action cannot be read\<close>

text \<open>
  Claim C10. When \<^verbatim>\<open>util.GetEnforcementAction\<close> fails, the pass returns that error
  at once: the trace holds the fetch of the resource and nothing more, so the engine is
  not called, the resource is not written (no finalizer is added or removed, no status
  is written), the cache is the one the pass started with and no metrics are reported.
  Nothing is asked of the resource, so this also holds when its deletion is requested
  and it carries the finalizer.
\<close>

theorem C10_enforcement_action_error:
  assumes "cs_Enter r" and "client_Get r req = Inr instance"
    and "util_GetEnforcementAction r instance = Inl e"
  shows "Reconcile r req c =
           \<lparr>Requeue = False, err = Some e, inst = Some instance, status_var = None,
            cache_out = c, trace = [Cs_Enter, Client_Get req, Cs_Exit], reportMetrics = False\<rparr>"
  using assms by (simp add: Reconcile_def Reconcile_body_def)

text \<open>An instance: a resource under deletion that carries the finalizer.\<close>

theorem C10_enforcement_action_error_witness:
  "cs_Enter env_bad_action
   \<and> client_Get env_bad_action ''a'' = Inr res_del
   \<and> util_GetEnforcementAction env_bad_action res_del = Inl (OtherError ''bad action'')
   \<and> \<not> IsZero (DeletionTimestamp res_del) \<and> HasFinalizer res_del
   \<and> Reconcile env_bad_action ''a'' cache_a =
           \<lparr>Requeue = False, err = Some (OtherError ''bad action''), inst = Some res_del, status_var = None,
            cache_out = cache_a, trace = [Cs_Enter, Client_Get ''a'', Cs_Exit], reportMetrics = False\<rparr>"
  using C10_enforcement_action_error [of env_bad_action "''a''" res_del "OtherError ''bad action''" cache_a]
  by (simp add: env_bad_action_def env_a_def res_del_def res_fin_def res_a_def HasFinalizer_def)

subsection \<open>Registration fails\<close>

lemma add_failed_fields:
  "err (Reconcile_add_failed r k a i st c tr e) = Some e"
  "\<not> Requeue (Reconcile_add_failed r k a i st c tr e)"
  "reportMetrics (Reconcile_add_failed r k a i st c tr e)"
  "cache_out (Reconcile_add_failed r k a i st c tr e) =
     addConstraintKey k \<lparr>enforcementAction = a, status = ErrorStatus\<rparr> c"
  "status_var (Reconcile_add_failed r k a i st c tr e) =
     Some (st\<lparr>Errors := Errors st @ [Error (err_Error e)]\<rparr>)"
  by (simp_all add: Reconcile_add_failed_def Let_def split: prod.splits)

lemma add_failed_write:
  "\<exists>sent. Client_Status_Update sent \<in> set (trace (Reconcile_add_failed r k a i st c tr e))
     \<and> (case SetHAStatus r i (st\<lparr>Errors := Errors st @ [Error (err_Error e)]\<rparr>) of
          Inl err2 \<Rightarrow> sent = i
            \<and> Log_Error err2 ''could not set constraint error status''
                \<in> set (trace (Reconcile_add_failed r k a i st c tr e))
        | Inr i' \<Rightarrow> sent = i')
     \<and> (case client_Status_Update r sent of
          Inl err2 \<Rightarrow> Log_Error err2 ''could not report constraint error status''
                \<in> set (trace (Reconcile_add_failed r k a i st c tr e))
            \<and> inst (Reconcile_add_failed r k a i st c tr e) = Some sent
        | Inr i' \<Rightarrow> inst (Reconcile_add_failed r k a i st c tr e) = Some i')"
  by (cases "SetHAStatus r i (st\<lparr>Errors := Errors st @ [Error (err_Error e)]\<rparr>)")
     (auto simp: Reconcile_add_failed_def Let_def split: sum.splits)

lemma map_of_addConstraintKey: "map_of (addConstraintKey k t c) k = Some t"
  by (simp add: addConstraintKey_def update_conv')

text \<open>
  Claim C2. In a pass that calls \<^verbatim>\<open>AddConstraint\<close> and gets the error \<open>e\<close>: the
  message of \<open>e\<close> is appended to the errors of the local status, which were cleared
  before, so they are that one message; the status is sent to the API server with
  \<^verbatim>\<open>Status().Update\<close>, carrying this status unless writing it into the resource failed
  and was logged; an error of \<^verbatim>\<open>Status().Update\<close> is logged and does not change the
  result; the cache entry of the constraint key becomes the enforcement action with
  the error status; the metrics are reported from the new cache at the end of the pass;
  the pass returns \<open>e\<close>.
\<close>

theorem C2_registration_failure:
  assumes get: "client_Get r req = Inr instance0"
    and act: "util_GetEnforcementAction r instance0 = Inr action"
    and add: "Opa_AddConstraint obj \<in> set (trace (Reconcile r req c))"
    and fail: "opa_AddConstraint r obj = Some e"
  shows "\<exists>st sent.
           status_var (Reconcile r req c) = Some st
         \<and> Errors st = [Error (err_Error e)]
         \<and> Client_Status_Update sent \<in> set (trace (Reconcile r req c))
         \<and> (status_field sent = Some st
            \<or> (\<exists>err2. Log_Error err2 ''could not set constraint error status''
                         \<in> set (trace (Reconcile r req c))))
         \<and> (\<forall>err2. client_Status_Update r sent = Inl err2 \<longrightarrow>
                Log_Error err2 ''could not report constraint error status''
                  \<in> set (trace (Reconcile r req c)))
         \<and> cache_out (Reconcile r req c) =
             addConstraintKey (Join [Kind instance0, Name instance0] ''/'')
               \<lparr>enforcementAction = action, status = ErrorStatus\<rparr> c
         \<and> map_of (cache_out (Reconcile r req c)) (Join [Kind instance0, Name instance0] ''/'') =
             Some \<lparr>enforcementAction = action, status = ErrorStatus\<rparr>
         \<and> reportMetrics (Reconcile r req c)
         \<and> (\<exists>pre. trace (Reconcile r req c) =
                pre @ snd (reportTotalConstraints r (cache_out (Reconcile r req c))) @ [Cs_Exit])
         \<and> err (Reconcile r req c) = Some e
         \<and> \<not> Requeue (Reconcile r req c)"
proof -
  from add_event_inversion [OF add] get act obtain i tr st0 i1 where
    p: "GetHAStatus r i = Inr st0" "SetHAStatus r i (st0\<lparr>Errors := []\<rparr>) = Inr i1"
       "content_differs r i1" "obj = i1\<lparr>status_field := None\<rparr>"
       "Reconcile_body r req c =
          Reconcile_sync r (Join [Kind instance0, Name instance0] ''/'') action i c tr"
    by auto
  define k where "k = Join [Kind instance0, Name instance0] ''/''"
  define tr1 where "tr1 = tr @ [Log_Info ''handling constraint update'', Opa_GetConstraint i1,
              Opa_AddConstraint (i1\<lparr>status_field := None\<rparr>)]"
  define st where "st = st0\<lparr>Errors := [Error (err_Error e)]\<rparr>"
  have body: "Reconcile_body r req c = Reconcile_add_failed r k action i1 (st0\<lparr>Errors := []\<rparr>) c tr1 e"
    using p fail sync_add_failed [OF p(1) p(2) p(3), of e k action c tr]
    by (simp add: k_def tr1_def)
  have st: "st0\<lparr>Errors := Errors (st0\<lparr>Errors := []\<rparr>) @ [Error (err_Error e)]\<rparr> = st"
    by (simp add: st_def)
  from add_failed_write [of r k action i1 "st0\<lparr>Errors := []\<rparr>" c tr1 e]
  obtain sent where
    w: "Client_Status_Update sent \<in> set (trace (Reconcile_body r req c))"
       "case SetHAStatus r i1 st of
          Inl err2 \<Rightarrow> sent = i1
            \<and> Log_Error err2 ''could not set constraint error status''
                \<in> set (trace (Reconcile_body r req c))
        | Inr i' \<Rightarrow> sent = i'"
       "case client_Status_Update r sent of
          Inl err2 \<Rightarrow> Log_Error err2 ''could not report constraint error status''
                \<in> set (trace (Reconcile_body r req c))
            \<and> inst (Reconcile_body r req c) = Some sent
        | Inr i' \<Rightarrow> inst (Reconcile_body r req c) = Some i'"
    unfolding body [symmetric] by (auto simp: st_def)
  have sv: "status_var (Reconcile r req c) = Some st"
    by (simp add: Reconcile_fields body add_failed_fields st_def)
  have w1: "Client_Status_Update sent \<in> set (trace (Reconcile r req c))"
    using w(1) by (simp add: Reconcile_trace)
  have w2: "status_field sent = Some st
            \<or> (\<exists>err2. Log_Error err2 ''could not set constraint error status''
                         \<in> set (trace (Reconcile r req c)))"
    using w(2) by (auto simp: Reconcile_trace SetHAStatus_def split: sum.splits option.splits)
  have w3: "\<forall>err2. client_Status_Update r sent = Inl err2 \<longrightarrow>
                Log_Error err2 ''could not report constraint error status''
                  \<in> set (trace (Reconcile r req c))"
    using w(3) by (auto simp: Reconcile_trace)
  have co: "cache_out (Reconcile r req c) =
             addConstraintKey k \<lparr>enforcementAction = action, status = ErrorStatus\<rparr> c"
    by (simp add: Reconcile_fields body add_failed_fields)
  have rm: "reportMetrics (Reconcile r req c)"
    by (simp add: Reconcile_fields body add_failed_fields)
  have tr: "trace (Reconcile r req c) =
      trace (Reconcile_body r req c) @ snd (reportTotalConstraints r (cache_out (Reconcile r req c))) @ [Cs_Exit]"
    using rm by (simp add: Reconcile_trace Reconcile_fields)
  have er: "err (Reconcile r req c) = Some e" "\<not> Requeue (Reconcile r req c)"
    by (simp_all add: Reconcile_fields body add_failed_fields)
  have "Errors st = [Error (err_Error e)]" by (simp add: st_def)
  with sv w1 w2 w3 co rm tr er show ?thesis
    unfolding k_def [symmetric] by (auto simp: map_of_addConstraintKey)
qed

text \<open>An instance: the engine answers \<open>bad rule\<close> and the status write fails.\<close>

theorem C2_registration_failure_witness:
  "client_Get env_add_fails ''a'' = Inr res_fin
   \<and> util_GetEnforcementAction env_add_fails res_fin = Inr ''deny''
   \<and> Opa_AddConstraint (res_fin\<lparr>status_field := None\<rparr>)
        \<in> set (trace (Reconcile env_add_fails ''a'' []))
   \<and> opa_AddConstraint env_add_fails (res_fin\<lparr>status_field := None\<rparr>) = Some (OtherError ''bad rule'')
   \<and> err (Reconcile env_add_fails ''a'' []) = Some (OtherError ''bad rule'')
   \<and> cache_out (Reconcile env_add_fails ''a'' []) =
        [(''K/a'', \<lparr>enforcementAction = ''deny'', status = ''error''\<rparr>)]"
  using C2_registration_failure [of env_add_fails "''a''" res_fin "''deny''" "res_fin\<lparr>status_field := None\<rparr>" "[]"
              "OtherError ''bad rule''"]
  by (simp add: env_add_fails_def scenario_defs Reconcile_defs)

subsection \<open>What the engine is given\<close>

lemma enforced_trace: "\<exists>post. trace (Reconcile_enforced r k a i st c tr) = tr @ post"
  by (simp add: Reconcile_enforced_def Let_def split: sum.splits)

lemma add_failed_trace: "\<exists>post. trace (Reconcile_add_failed r k a i st c tr e) = tr @ post"
  by (simp add: Reconcile_add_failed_def Let_def split: sum.splits prod.splits)

lemma sync_status: "SetHAStatus r i st = Inr i1 \<Longrightarrow> status_field i1 = Some st"
  by (auto simp: SetHAStatus_def split: option.splits)

text \<open>
  Claim C8. \<^verbatim>\<open>cacheConstraint\<close> hands to \<^verbatim>\<open>AddConstraint\<close> a copy of the resource
  with the status removed and leaves the caller's resource as it was. In a pass, every
  \<^verbatim>\<open>AddConstraint\<close> call follows the \<^verbatim>\<open>GetConstraint\<close> call for the in-memory
  resource, which carries a status at that point, and its argument is that resource
  without the status.
\<close>

theorem C8_engine_never_sees_status:
  "cacheConstraint r instance =
     (instance, instance\<lparr>status_field := None\<rparr>,
      opa_AddConstraint r (instance\<lparr>status_field := None\<rparr>))
   \<and> (\<forall>obj. Opa_AddConstraint obj \<in> set (trace (Reconcile r req c)) \<longrightarrow>
         status_field obj = None
       \<and> (\<exists>i st pre post. status_field i = Some st \<and> obj = i\<lparr>status_field := None\<rparr>
            \<and> trace (Reconcile r req c) =
                pre @ [Opa_GetConstraint i, Opa_AddConstraint obj] @ post))"
proof (intro conjI allI impI)
  show "cacheConstraint r instance =
     (instance, instance\<lparr>status_field := None\<rparr>,
      opa_AddConstraint r (instance\<lparr>status_field := None\<rparr>))"
    by (simp add: cacheConstraint_def DeepCopy_def RemoveNestedField_status_def Let_def)
next
  fix obj assume add: "Opa_AddConstraint obj \<in> set (trace (Reconcile r req c))"
  from add_event_inversion [OF add] obtain k action i tr st0 i1 where
    p: "GetHAStatus r i = Inr st0" "SetHAStatus r i (st0\<lparr>Errors := []\<rparr>) = Inr i1"
       "content_differs r i1" "obj = i1\<lparr>status_field := None\<rparr>"
       "Reconcile_body r req c = Reconcile_sync r k action i c tr"
    by blast
  show "status_field obj = None" using p(4) by simp
  have st: "status_field i1 = Some (st0\<lparr>Errors := []\<rparr>)" by (rule sync_status [OF p(2)])
  have "\<exists>post. trace (Reconcile_body r req c) =
          (tr @ [Log_Info ''handling constraint update'']) @
          [Opa_GetConstraint i1, Opa_AddConstraint obj] @ post"
  proof (cases "opa_AddConstraint r obj")
    case None
    with p sync_added [OF p(1) p(2) p(3), of k action c tr]
      enforced_trace [of r k action i1 "st0\<lparr>Errors := []\<rparr>" c
        "tr @ [Log_Info ''handling constraint update'', Opa_GetConstraint i1,
               Opa_AddConstraint (i1\<lparr>status_field := None\<rparr>), logAddition]"]
    show ?thesis by auto
  next
    case (Some e)
    with p sync_add_failed [OF p(1) p(2) p(3), of e k action c tr]
      add_failed_trace [of r k action i1 "st0\<lparr>Errors := []\<rparr>" c
        "tr @ [Log_Info ''handling constraint update'', Opa_GetConstraint i1,
               Opa_AddConstraint (i1\<lparr>status_field := None\<rparr>)]" e]
    show ?thesis by auto
  qed
  then obtain post where
    "trace (Reconcile r req c) =
       (tr @ [Log_Info ''handling constraint update'']) @
       [Opa_GetConstraint i1, Opa_AddConstraint obj] @
       (post @ (if reportMetrics (Reconcile_body r req c)
                then snd (reportTotalConstraints r (cache_out (Reconcile_body r req c))) else [])
             @ [Cs_Exit])"
    by (auto simp: Reconcile_trace)
  with st p(4)
  show "\<exists>i st pre post. status_field i = Some st \<and> obj = i\<lparr>status_field := None\<rparr>
            \<and> trace (Reconcile r req c) =
                pre @ [Opa_GetConstraint i, Opa_AddConstraint obj] @ post"
    by blast
qed

text \<open>An instance: the stored resource carries a status, the object added has none.\<close>

theorem C8_engine_never_sees_status_witness:
  "Opa_AddConstraint (res_fin\<lparr>status_field := None\<rparr>)
     \<in> set (trace (Reconcile env_fetch_fails ''a'' []))
   \<and> status_field res_fin = Some \<lparr>Enforced = True, Errors = []\<rparr>
   \<and> status_field (res_fin\<lparr>status_field := None\<rparr>) = None
   \<and> fst (cacheConstraint env_fetch_fails res_fin) = res_fin"
  using C8_engine_never_sees_status [of env_fetch_fails res_fin "''a''" "[]"]
  by (simp add: env_fetch_fails_def scenario_defs Reconcile_defs)

subsection \<open>The fetch from the engine fails\<close>

lemma env_upd_attach [simp]:
  "Reconcile_attach (r\<lparr>opa_GetConstraint := g, constraints_SemanticEqual := q\<rparr>) = Reconcile_attach r"
  by (simp add: fun_eq_iff Reconcile_attach_def Let_def)

lemma env_upd_sync_entry [simp]:
  "sync_entry (r\<lparr>opa_GetConstraint := g, constraints_SemanticEqual := q\<rparr>) req = sync_entry r req"
  by (simp add: sync_entry_def cong: sum.case_cong if_cong)

lemma env_upd_HAStatus [simp]:
  "GetHAStatus (r\<lparr>opa_GetConstraint := g, constraints_SemanticEqual := q\<rparr>) = GetHAStatus r"
  "SetHAStatus (r\<lparr>opa_GetConstraint := g, constraints_SemanticEqual := q\<rparr>) = SetHAStatus r"
  by (simp_all add: fun_eq_iff GetHAStatus_def SetHAStatus_def)

lemma env_upd_enforced [simp]:
  "Reconcile_enforced (r\<lparr>opa_GetConstraint := g, constraints_SemanticEqual := q\<rparr>) =
   Reconcile_enforced r"
  by (simp add: fun_eq_iff Reconcile_enforced_def Let_def cong: sum.case_cong)

lemma env_upd_add_failed [simp]:
  "Reconcile_add_failed (r\<lparr>opa_GetConstraint := g, constraints_SemanticEqual := q\<rparr>) =
   Reconcile_add_failed r"
  by (simp add: fun_eq_iff Reconcile_add_failed_def Let_def cong: sum.case_cong)

lemma env_upd_report [simp]:
  "reportTotalConstraints (r\<lparr>opa_GetConstraint := g, constraints_SemanticEqual := q\<rparr>) =
   reportTotalConstraints r"
  by (simp add: fun_eq_iff reportTotalConstraints_def report_one_def)

lemma Reconcile_of_body:
  "Reconcile r req c =
     (let out = Reconcile_body r req c
      in out\<lparr>trace := trace out @
               (if reportMetrics out then snd (reportTotalConstraints r (cache_out out)) else [])
               @ [Cs_Exit]\<rparr>)"
  by (simp add: Reconcile_def Let_def reportTotalConstraints_def split: prod.splits)

lemma enforced_err:
  "err (Reconcile_enforced r k a i st c tr) = Some e' \<Longrightarrow>
   \<exists>st'. csutil_SetHAStatus_err r i st' = Some e'"
  by (auto simp: Reconcile_enforced_def SetHAStatus_def Let_def split: sum.splits option.splits)

text \<open>
  Claim C9. In a pass whose \<^verbatim>\<open>GetConstraint\<close> call returns an error, the pass goes
  on to call \<^verbatim>\<open>AddConstraint\<close> with the resource without its status; the whole
  outcome is the one of the pass in which the fetch succeeds and the contents are not
  semantically equal; and an error the pass returns is the error of \<^verbatim>\<open>AddConstraint\<close>
  or of writing the status into the resource, not the error of the fetch.
\<close>

theorem C9_fetch_error_overwrites:
  assumes get: "Opa_GetConstraint i \<in> set (trace (Reconcile r req c))"
    and fetch: "opa_GetConstraint r i = Inl e"
  shows "Opa_AddConstraint (i\<lparr>status_field := None\<rparr>) \<in> set (trace (Reconcile r req c))
       \<and> (\<forall>c'. Reconcile r req c =
                 Reconcile (r\<lparr>opa_GetConstraint := (\<lambda>x. Inr c'),
                             constraints_SemanticEqual := (\<lambda>x y. False)\<rparr>) req c)
       \<and> (\<forall>e'. err (Reconcile r req c) = Some e' \<longrightarrow>
              opa_AddConstraint r (i\<lparr>status_field := None\<rparr>) = Some e'
            \<or> (\<exists>st. csutil_SetHAStatus_err r i st = Some e'))"
proof -
  from get_event_inversion [OF get] obtain i0 tr st0 where
    se: "sync_entry r req = Some (i0, tr)"
    and g: "GetHAStatus r i0 = Inr st0"
    and s: "SetHAStatus r i0 (st0\<lparr>Errors := []\<rparr>) = Inr i"
    by blast
  from body_sync [OF se, of c] obtain instance1 action1 where
    body: "Reconcile_body r req c =
             Reconcile_sync r (Join [Kind instance1, Name instance1] ''/'') action1 i0 c tr"
    and cg: "client_Get r req = Inr instance1"
    and ga: "util_GetEnforcementAction r instance1 = Inr action1"
    by blast
  define k where "k = Join [Kind instance1, Name instance1] ''/''"
  define st where "st = st0\<lparr>Errors := []\<rparr>"
  define tr1 where "tr1 = tr @ [Log_Info ''handling constraint update'', Opa_GetConstraint i,
                               Opa_AddConstraint (i\<lparr>status_field := None\<rparr>)]"
  have d: "content_differs r i" using fetch by (simp add: content_differs_def)
  have body': "Reconcile_body r req c =
      (case opa_AddConstraint r (i\<lparr>status_field := None\<rparr>) of
         Some e' \<Rightarrow> Reconcile_add_failed r k action1 i st c tr1 e'
       | None \<Rightarrow> Reconcile_enforced r k action1 i st c (tr1 @ [logAddition]))"
    using sync_added [OF g s d, of k action1 c tr] sync_add_failed [OF g s d, of _ k action1 c tr]
    by (simp add: body k_def st_def tr1_def split: option.splits)
  have 1: "Opa_AddConstraint (i\<lparr>status_field := None\<rparr>) \<in> set (trace (Reconcile r req c))"
  proof -
    have "\<exists>post. trace (Reconcile_body r req c) = tr1 @ post"
      using enforced_trace [of r k action1 i st c "tr1 @ [logAddition]"]
        add_failed_trace [of r k action1 i st c tr1]
      by (auto simp: body' split: option.splits)
    then show ?thesis by (auto simp: Reconcile_trace tr1_def)
  qed
  have 2: "Reconcile r req c =
             Reconcile (r\<lparr>opa_GetConstraint := (\<lambda>x. Inr c'),
                         constraints_SemanticEqual := (\<lambda>x y. False)\<rparr>) req c" for c'
  proof -
    let ?r = "r\<lparr>opa_GetConstraint := (\<lambda>x. Inr c'), constraints_SemanticEqual := (\<lambda>x y. False)\<rparr>"
    have se': "sync_entry ?r req = Some (i0, tr)" using se by simp
    have d': "content_differs ?r i" by (simp add: content_differs_def)
    from body_sync [OF se', of c] cg ga
    have b: "Reconcile_body ?r req c = Reconcile_sync ?r k action1 i0 c tr"
      by (auto simp: k_def)
    have g': "GetHAStatus ?r i0 = Inr st0" and s': "SetHAStatus ?r i0 (st0\<lparr>Errors := []\<rparr>) = Inr i"
      using g s by simp_all
    have "Reconcile_body ?r req c =
      (case opa_AddConstraint r (i\<lparr>status_field := None\<rparr>) of
         Some e' \<Rightarrow> Reconcile_add_failed r k action1 i st c tr1 e'
       | None \<Rightarrow> Reconcile_enforced r k action1 i st c (tr1 @ [logAddition]))"
      using sync_added [OF g' s' d', of k action1 c tr]
        sync_add_failed [OF g' s' d', of _ k action1 c tr]
      by (simp add: b st_def tr1_def split: option.splits)
    then have "Reconcile_body ?r req c = Reconcile_body r req c" by (simp add: body')
    then show ?thesis by (simp add: Reconcile_of_body Let_def)
  qed
  have 3: "opa_AddConstraint r (i\<lparr>status_field := None\<rparr>) = Some e'
            \<or> (\<exists>st. csutil_SetHAStatus_err r i st = Some e')"
    if "err (Reconcile r req c) = Some e'" for e'
    using that enforced_err [of r k action1 i st c "tr1 @ [logAddition]" e']
    by (auto simp: Reconcile_fields body' add_failed_fields split: option.splits)
  from 1 2 3 show ?thesis by blast
qed

text \<open>An instance: the engine does not know the constraint, the pass adds it and
  returns no error.\<close>

theorem C9_fetch_error_overwrites_witness:
  "Opa_GetConstraint res_fin \<in> set (trace (Reconcile env_fetch_fails ''a'' []))
   \<and> opa_GetConstraint env_fetch_fails res_fin = Inl (OtherError ''no such constraint'')
   \<and> Opa_AddConstraint (res_fin\<lparr>status_field := None\<rparr>)
       \<in> set (trace (Reconcile env_fetch_fails ''a'' []))
   \<and> err (Reconcile env_fetch_fails ''a'' []) = None"
  using C9_fetch_error_overwrites [of res_fin env_fetch_fails "''a''" "[]" "OtherError ''no such constraint''"]
  by (simp add: env_fetch_fails_def scenario_defs Reconcile_defs)

subsection \<open>Deletion\<close>

lemma removeString_loop_filter:
  "removeString_loop s rval items = rval @ filter (\<lambda>item. item \<noteq> s) items"
  by (induction items arbitrary: rval) simp_all

lemma removeString_filter: "removeString s items = filter (\<lambda>item. item \<noteq> s) items"
  by (simp add: removeString_def removeString_loop_filter)

lemma containsString_set: "containsString s items = (s \<in> set items)"
  by (induction items) auto

lemma HasFinalizer_RemoveFinalizer: "\<not> HasFinalizer (RemoveFinalizer instance)"
  by (simp add: HasFinalizer_def RemoveFinalizer_def containsString_set removeString_filter)

lemma map_of_deleteConstraintKey: "map_of (deleteConstraintKey k c) k = None"
  by (simp add: deleteConstraintKey_def delete_conv')

lemma report_one_reports: "reports_of (report_one r t n) = [(t, n)]"
  by (auto simp: reports_of_def report_one_def split: option.splits)

lemma reports_of_simps:
  "reports_of [] = []"
  "reports_of (ev # tr) = report_of ev @ reports_of tr"
  by (simp_all add: reports_of_def)

lemma reports_of_append: "reports_of (xs @ ys) = reports_of xs @ reports_of ys"
  by (simp add: reports_of_def)

lemma report_one_client: "filter is_client_write (report_one r t n) = []"
  by (simp add: report_one_def split: option.splits)

lemma reportTotalConstraints_client:
  "filter is_client_write (snd (reportTotalConstraints r c)) = []"
  by (simp add: reportTotalConstraints_def Let_def filter_concat report_one_client comp_def)

text \<open>
  Claim C1, as stated, fails: the engine removes the constraint, the update that
  carries the resource without the finalizer fails, and the pass ends with the cache
  entry still there and without a metrics report.
\<close>

theorem C1_finalizer_after_engine_removal_counterexample:
  "\<not> IsZero (DeletionTimestamp res_del) \<and> HasFinalizer res_del
   \<and> client_Get env_delete_update_fails ''a'' = Inr res_del
   \<and> opa_RemoveConstraint env_delete_update_fails res_del = None
   \<and> map_of (cache_out (Reconcile env_delete_update_fails ''a'' cache_a)) ''K/a'' =
        Some \<lparr>enforcementAction = ''deny'', status = ''active''\<rparr>
   \<and> reports_of (trace (Reconcile env_delete_update_fails ''a'' cache_a)) = []"
  by (simp add: env_delete_update_fails_def scenario_defs Reconcile_defs reports_of_def)

text \<open>
  Claim C1, amended. In a pass that reaches the deletion branch for a resource with the
  finalizer: when \<^verbatim>\<open>RemoveConstraint\<close> succeeds or fails with an
  \<^verbatim>\<open>UnrecognizedConstraintError\<close>, the finalizer is removed and the resource is sent
  with \<^verbatim>\<open>Update\<close>; if that update succeeds, the cache entry of the constraint key is
  deleted, the metrics are reported and the pass returns no error; if it fails, the pass
  asks for a requeue without an error, the cache is unchanged and nothing is reported.
  For any other error of \<^verbatim>\<open>RemoveConstraint\<close> the pass returns that error, the
  resource keeps its finalizer, nothing is written and the cache is unchanged. In every
  trace the update follows the call of the engine.
\<close>

theorem C1_finalizer_after_engine_removal:
  assumes en: "cs_Enter r" and get: "client_Get r req = Inr instance"
    and act: "util_GetEnforcementAction r instance = Inr action"
    and del: "\<not> IsZero (DeletionTimestamp instance)" and fin: "HasFinalizer instance"
  shows "\<not> HasFinalizer (RemoveFinalizer instance)
       \<and> map_of (deleteConstraintKey (Join [Kind instance, Name instance] ''/'') c)
            (Join [Kind instance, Name instance] ''/'') = None
       \<and> ((opa_RemoveConstraint r instance = None
            \<or> (\<exists>e. opa_RemoveConstraint r instance = Some e \<and> is_UnrecognizedConstraintError e))
           \<longrightarrow>
             (\<forall>instance'. client_Update r (RemoveFinalizer instance) = Inr instance' \<longrightarrow>
                Reconcile r req c =
                  \<lparr>Requeue = False, err = None, inst = Some instance', status_var = None,
                   cache_out = deleteConstraintKey (Join [Kind instance, Name instance] ''/'') c,
                   trace = [Cs_Enter, Client_Get req, Opa_RemoveConstraint instance, logRemoval,
                            Client_Update (RemoveFinalizer instance)]
                           @ snd (reportTotalConstraints r
                                   (deleteConstraintKey (Join [Kind instance, Name instance] ''/'') c))
                           @ [Cs_Exit],
                   reportMetrics = True\<rparr>)
           \<and> (\<forall>e'. client_Update r (RemoveFinalizer instance) = Inl e' \<longrightarrow>
                Reconcile r req c =
                  \<lparr>Requeue = True, err = None, inst = Some (RemoveFinalizer instance),
                   status_var = None, cache_out = c,
                   trace = [Cs_Enter, Client_Get req, Opa_RemoveConstraint instance, logRemoval,
                            Client_Update (RemoveFinalizer instance), Cs_Exit],
                   reportMetrics = False\<rparr>))
       \<and> (\<forall>e. opa_RemoveConstraint r instance = Some e \<and> \<not> is_UnrecognizedConstraintError e \<longrightarrow>
             Reconcile r req c =
               \<lparr>Requeue = False, err = Some e, inst = Some instance, status_var = None,
                cache_out = c,
                trace = [Cs_Enter, Client_Get req, Opa_RemoveConstraint instance, logRemoval,
                         Cs_Exit],
                reportMetrics = False\<rparr>)"
proof -
  have body: "Reconcile_body r req c =
      Reconcile_delete r (Join [Kind instance, Name instance] ''/'') instance c
        [Cs_Enter, Client_Get req]"
    using assms by (simp add: Reconcile_body_def)
  show ?thesis
    using fin
    by (auto simp: HasFinalizer_RemoveFinalizer map_of_deleteConstraintKey Reconcile_def body
        Reconcile_delete_def Let_def reportTotalConstraints_def)
qed

text \<open>Instances of the three cases: the engine does not recognise the constraint and
  the update succeeds; the update fails; the engine fails otherwise.\<close>

theorem C1_finalizer_after_engine_removal_witness:
  "cs_Enter env_delete \<and> client_Get env_delete ''a'' = Inr res_del
   \<and> util_GetEnforcementAction env_delete res_del = Inr ''deny''
   \<and> \<not> IsZero (DeletionTimestamp res_del) \<and> HasFinalizer res_del
   \<and> opa_RemoveConstraint env_delete res_del = Some (UnrecognizedConstraintError ''K'')
   \<and> client_Update env_delete (RemoveFinalizer res_del) = Inr (res_del\<lparr>Finalizers := []\<rparr>)
   \<and> cache_out (Reconcile env_delete ''a'' cache_a) = []
   \<and> err (Reconcile env_delete ''a'' cache_a) = None
   \<and> client_Update env_delete_update_fails (RemoveFinalizer res_del) = Inl (OtherError ''conflict'')
   \<and> Requeue (Reconcile env_delete_update_fails ''a'' cache_a)
   \<and> cache_out (Reconcile env_delete_update_fails ''a'' cache_a) = cache_a
   \<and> opa_RemoveConstraint env_remove_fails res_del = Some (OtherError ''engine down'')
   \<and> err (Reconcile env_remove_fails ''a'' cache_a) = Some (OtherError ''engine down'')
   \<and> inst (Reconcile env_remove_fails ''a'' cache_a) = Some res_del
   \<and> cache_out (Reconcile env_remove_fails ''a'' cache_a) = cache_a"
  using C1_finalizer_after_engine_removal [of env_delete "''a''" res_del "''deny''" cache_a]
    C1_finalizer_after_engine_removal [of env_delete_update_fails "''a''" res_del "''deny''" cache_a]
    C1_finalizer_after_engine_removal [of env_remove_fails "''a''" res_del "''deny''" cache_a]
  by (simp add: env_delete_def env_delete_update_fails_def env_remove_fails_def scenario_defs
      Reconcile_defs)

subsection \<open>Registration succeeds or is skipped\<close>

lemma enforced_reports:
  "reports_of (trace (Reconcile_enforced r k a i st c tr)) = reports_of tr"
  by (simp add: Reconcile_enforced_def Let_def reports_of_def split: sum.splits)

lemma add_failed_reports:
  "reports_of (trace (Reconcile_add_failed r k a i st c tr e)) = reports_of tr"
  by (simp add: Reconcile_add_failed_def Let_def reports_of_def split: sum.splits prod.splits)

lemma attach_reports:
  "Reconcile_attach r instance tr = (x, tr') \<Longrightarrow> reports_of tr' = reports_of tr"
  by (auto simp: Reconcile_attach_def Let_def reports_of_def split: sum.splits)

lemma sync_entry_reports: "sync_entry r req = Some (i, tr) \<Longrightarrow> reports_of tr = []"
  by (auto simp: sync_entry_def reports_of_def split: if_splits sum.splits prod.splits
      dest: attach_reports)

lemma ByPodStatus_enforced: "st\<lparr>Errors := [], Enforced := True\<rparr> = \<lparr>Enforced = True, Errors = []\<rparr>"
  by (cases st) simp

lemma enforced_outcome:
  assumes "csutil_SetHAStatus_err r i \<lparr>Enforced = True, Errors = []\<rparr> = None"
  shows "Reconcile_enforced r k a i (st0\<lparr>Errors := []\<rparr>) c tr =
     (case client_Status_Update r (i\<lparr>status_field := Some \<lparr>Enforced = True, Errors = []\<rparr>\<rparr>) of
        Inl e \<Rightarrow>
          \<lparr>Requeue = True, err = None,
           inst = Some (i\<lparr>status_field := Some \<lparr>Enforced = True, Errors = []\<rparr>\<rparr>),
           status_var = Some \<lparr>Enforced = True, Errors = []\<rparr>, cache_out = c,
           trace = tr @ [Client_Status_Update
                           (i\<lparr>status_field := Some \<lparr>Enforced = True, Errors = []\<rparr>\<rparr>)],
           reportMetrics = False\<rparr>
      | Inr i' \<Rightarrow>
          \<lparr>Requeue = False, err = None, inst = Some i',
           status_var = Some \<lparr>Enforced = True, Errors = []\<rparr>,
           cache_out = addConstraintKey k \<lparr>enforcementAction = a, status = ActiveStatus\<rparr> c,
           trace = tr @ [Client_Status_Update
                           (i\<lparr>status_field := Some \<lparr>Enforced = True, Errors = []\<rparr>\<rparr>)],
           reportMetrics = True\<rparr>)"
  using assms
  by (simp add: Reconcile_enforced_def SetHAStatus_def Let_def ByPodStatus_enforced
      split: sum.splits)

text \<open>
  Claim C3, as stated, fails: registration succeeds and the status write fails; the
  pass asks for a requeue without an error, the cache has no entry for the constraint
  key and no metrics are reported.
\<close>

theorem C3_registration_success_counterexample:
  "Opa_AddConstraint (res_fin\<lparr>status_field := None\<rparr>)
     \<in> set (trace (Reconcile env_status_write_fails ''a'' []))
   \<and> opa_AddConstraint env_status_write_fails (res_fin\<lparr>status_field := None\<rparr>) = None
   \<and> Client_Status_Update res_fin \<in> set (trace (Reconcile env_status_write_fails ''a'' []))
   \<and> client_Status_Update env_status_write_fails res_fin = Inl (OtherError ''conflict'')
   \<and> Requeue (Reconcile env_status_write_fails ''a'' [])
   \<and> err (Reconcile env_status_write_fails ''a'' []) = None
   \<and> map_of (cache_out (Reconcile env_status_write_fails ''a'' [])) ''K/a'' = None
   \<and> reports_of (trace (Reconcile env_status_write_fails ''a'' [])) = []"
  by (simp add: env_status_write_fails_def scenario_defs Reconcile_defs reports_of_def)

text \<open>
  Claim C3, amended. In an active pass that has asked the engine for its copy of the
  resource \<open>i\<close>, when the contents are equal or \<^verbatim>\<open>AddConstraint\<close> succeeds, and
  writing the status into the resource does not fail: the status is enforced with no
  errors and is sent with \<^verbatim>\<open>Status().Update\<close>, and the pass returns no error. If the
  status write fails the pass asks for a requeue, the cache is unchanged and no metrics
  are reported; if it succeeds the cache entry of the constraint key becomes the
  enforcement action with the active status and the metrics are reported from the new
  cache at the end of the pass.
\<close>

theorem C3_registration_success:
  assumes cg: "client_Get r req = Inr instance0"
    and act: "util_GetEnforcementAction r instance0 = Inr action"
    and get: "Opa_GetConstraint i \<in> set (trace (Reconcile r req c))"
    and ok: "\<not> content_differs r i \<or> opa_AddConstraint r (i\<lparr>status_field := None\<rparr>) = None"
    and set: "csutil_SetHAStatus_err r i \<lparr>Enforced = True, Errors = []\<rparr> = None"
  shows "status_var (Reconcile r req c) = Some \<lparr>Enforced = True, Errors = []\<rparr>
       \<and> Client_Status_Update (i\<lparr>status_field := Some \<lparr>Enforced = True, Errors = []\<rparr>\<rparr>)
           \<in> set (trace (Reconcile r req c))
       \<and> err (Reconcile r req c) = None
       \<and> (\<forall>e. client_Status_Update r (i\<lparr>status_field := Some \<lparr>Enforced = True, Errors = []\<rparr>\<rparr>)
                 = Inl e \<longrightarrow>
              Requeue (Reconcile r req c)
            \<and> cache_out (Reconcile r req c) = c
            \<and> \<not> reportMetrics (Reconcile r req c)
            \<and> reports_of (trace (Reconcile r req c)) = [])
       \<and> (\<forall>i'. client_Status_Update r (i\<lparr>status_field := Some \<lparr>Enforced = True, Errors = []\<rparr>\<rparr>)
                 = Inr i' \<longrightarrow>
              \<not> Requeue (Reconcile r req c)
            \<and> inst (Reconcile r req c) = Some i'
            \<and> cache_out (Reconcile r req c) =
                addConstraintKey (Join [Kind instance0, Name instance0] ''/'')
                  \<lparr>enforcementAction = action, status = ActiveStatus\<rparr> c
            \<and> map_of (cache_out (Reconcile r req c)) (Join [Kind instance0, Name instance0] ''/'') =
                Some \<lparr>enforcementAction = action, status = ActiveStatus\<rparr>
            \<and> reportMetrics (Reconcile r req c)
            \<and> (\<exists>pre. trace (Reconcile r req c) =
                  pre @ snd (reportTotalConstraints r (cache_out (Reconcile r req c))) @ [Cs_Exit]))"
proof -
  from get_event_inversion [OF get] cg act obtain i0 tr st0 where
    se: "sync_entry r req = Some (i0, tr)"
    and g: "GetHAStatus r i0 = Inr st0"
    and s: "SetHAStatus r i0 (st0\<lparr>Errors := []\<rparr>) = Inr i"
    and body: "Reconcile_body r req c =
                 Reconcile_sync r (Join [Kind instance0, Name instance0] ''/'') action i0 c tr"
    by auto
  define k where "k = Join [Kind instance0, Name instance0] ''/''"
  define sent where "sent = i\<lparr>status_field := Some \<lparr>Enforced = True, Errors = []\<rparr>\<rparr>"
  define tr1 where "tr1 = tr @ [Log_Info ''handling constraint update'', Opa_GetConstraint i] @
      (if content_differs r i then [Opa_AddConstraint (i\<lparr>status_field := None\<rparr>), logAddition]
       else [])"
  have nr: "reports_of tr1 = []"
    using sync_entry_reports [OF se]
    by (simp add: tr1_def reports_of_append reports_of_simps logAddition_def)
  have b: "Reconcile_body r req c = Reconcile_enforced r k action i (st0\<lparr>Errors := []\<rparr>) c tr1"
  proof (cases "content_differs r i")
    case False
    from sync_skipped [OF g s False, of k action c tr] False
    show ?thesis by (simp add: body k_def tr1_def)
  next
    case True
    with ok have "opa_AddConstraint r (i\<lparr>status_field := None\<rparr>) = None" by simp
    from sync_added [OF g s True this, of k action c tr] True
    show ?thesis by (simp add: body k_def tr1_def)
  qed
  note o = enforced_outcome [OF set, of k action st0 c tr1, folded sent_def]
  show ?thesis
    unfolding k_def [symmetric] sent_def [symmetric]
  proof (cases "client_Status_Update r sent")
    case (Inl e)
    with o b have "Reconcile_body r req c =
          \<lparr>Requeue = True, err = None, inst = Some sent,
           status_var = Some \<lparr>Enforced = True, Errors = []\<rparr>, cache_out = c,
           trace = tr1 @ [Client_Status_Update sent], reportMetrics = False\<rparr>"
      by simp
    with Inl nr show "status_var (Reconcile r req c) = Some \<lparr>Enforced = True, Errors = []\<rparr>
       \<and> Client_Status_Update sent \<in> set (trace (Reconcile r req c))
       \<and> err (Reconcile r req c) = None
       \<and> (\<forall>e. client_Status_Update r sent = Inl e \<longrightarrow>
              Requeue (Reconcile r req c)
            \<and> cache_out (Reconcile r req c) = c
            \<and> \<not> reportMetrics (Reconcile r req c)
            \<and> reports_of (trace (Reconcile r req c)) = [])
       \<and> (\<forall>i'. client_Status_Update r sent = Inr i' \<longrightarrow>
              \<not> Requeue (Reconcile r req c)
            \<and> inst (Reconcile r req c) = Some i'
            \<and> cache_out (Reconcile r req c) =
                addConstraintKey k \<lparr>enforcementAction = action, status = ActiveStatus\<rparr> c
            \<and> map_of (cache_out (Reconcile r req c)) k =
                Some \<lparr>enforcementAction = action, status = ActiveStatus\<rparr>
            \<and> reportMetrics (Reconcile r req c)
            \<and> (\<exists>pre. trace (Reconcile r req c) =
                  pre @ snd (reportTotalConstraints r (cache_out (Reconcile r req c))) @ [Cs_Exit]))"
      by (simp add: Reconcile_fields Reconcile_trace reports_of_append) (simp add: reports_of_def)
  next
    case (Inr i')
    with o b have "Reconcile_body r req c =
          \<lparr>Requeue = False, err = None, inst = Some i',
           status_var = Some \<lparr>Enforced = True, Errors = []\<rparr>,
           cache_out = addConstraintKey k \<lparr>enforcementAction = action, status = ActiveStatus\<rparr> c,
           trace = tr1 @ [Client_Status_Update sent], reportMetrics = True\<rparr>"
      by simp
    with Inr show "status_var (Reconcile r req c) = Some \<lparr>Enforced = True, Errors = []\<rparr>
       \<and> Client_Status_Update sent \<in> set (trace (Reconcile r req c))
       \<and> err (Reconcile r req c) = None
       \<and> (\<forall>e. client_Status_Update r sent = Inl e \<longrightarrow>
              Requeue (Reconcile r req c)
            \<and> cache_out (Reconcile r req c) = c
            \<and> \<not> reportMetrics (Reconcile r req c)
            \<and> reports_of (trace (Reconcile r req c)) = [])
       \<and> (\<forall>i'. client_Status_Update r sent = Inr i' \<longrightarrow>
              \<not> Requeue (Reconcile r req c)
            \<and> inst (Reconcile r req c) = Some i'
            \<and> cache_out (Reconcile r req c) =
                addConstraintKey k \<lparr>enforcementAction = action, status = ActiveStatus\<rparr> c
            \<and> map_of (cache_out (Reconcile r req c)) k =
                Some \<lparr>enforcementAction = action, status = ActiveStatus\<rparr>
            \<and> reportMetrics (Reconcile r req c)
            \<and> (\<exists>pre. trace (Reconcile r req c) =
                  pre @ snd (reportTotalConstraints r (cache_out (Reconcile r req c))) @ [Cs_Exit]))"
      by (simp add: Reconcile_fields Reconcile_trace map_of_addConstraintKey)
  qed
qed

text \<open>Instances: the status write succeeds, and the status write fails.\<close>

theorem C3_registration_success_witness:
  "client_Get env_fetch_fails ''a'' = Inr res_fin
   \<and> util_GetEnforcementAction env_fetch_fails res_fin = Inr ''deny''
   \<and> Opa_GetConstraint res_fin \<in> set (trace (Reconcile env_fetch_fails ''a'' []))
   \<and> opa_AddConstraint env_fetch_fails (res_fin\<lparr>status_field := None\<rparr>) = None
   \<and> csutil_SetHAStatus_err env_fetch_fails res_fin \<lparr>Enforced = True, Errors = []\<rparr> = None
   \<and> client_Status_Update env_fetch_fails res_fin = Inr res_fin
   \<and> cache_out (Reconcile env_fetch_fails ''a'' []) =
        [(''K/a'', \<lparr>enforcementAction = ''deny'', status = ''active''\<rparr>)]
   \<and> err (Reconcile env_fetch_fails ''a'' []) = None
   \<and> \<not> Requeue (Reconcile env_fetch_fails ''a'' [])
   \<and> Opa_GetConstraint res_fin \<in> set (trace (Reconcile env_status_write_fails ''a'' []))
   \<and> client_Status_Update env_status_write_fails res_fin = Inl (OtherError ''conflict'')
   \<and> Requeue (Reconcile env_status_write_fails ''a'' [])
   \<and> cache_out (Reconcile env_status_write_fails ''a'' []) = []"
  using C3_registration_success [of env_fetch_fails "''a''" res_fin "''deny''" res_fin "[]"]
    C3_registration_success [of env_status_write_fails "''a''" res_fin "''deny''" res_fin "[]"]
  by (simp add: env_fetch_fails_def env_status_write_fails_def scenario_defs Reconcile_defs)

subsection \<open>Attaching the finalizer\<close>

text \<open>
  Claim C6. In a pass that attaches the finalizer to a resource that carries a status
  \<open>s\<close>, whatever object the API server returns for the update, the object behind
  \<^verbatim>\<open>instance\<close> after lines 172 to 184 carries the status \<open>s\<close> again: its status
  equals the status before the update, the pass goes on to synchronise with it, and
  \<^verbatim>\<open>GetHAStatus\<close> reads \<open>s\<close> from it.
\<close>

theorem C6_status_kept_on_attach:
  assumes en: "cs_Enter r" and get: "client_Get r req = Inr instance"
    and act: "util_GetEnforcementAction r instance = Inr action"
    and live: "IsZero (DeletionTimestamp instance)" and nofin: "\<not> HasFinalizer instance"
    and st: "status_field instance = Some s"
    and upd: "client_Update r (instance\<lparr>Finalizers := Finalizers instance @ [finalizerName]\<rparr>)
                = Inr instance1"
  shows "Reconcile_attach r instance [Cs_Enter, Client_Get req] =
           (Inr (instance1\<lparr>status_field := Some s\<rparr>),
            [Cs_Enter, Client_Get req,
             Client_Update (instance\<lparr>Finalizers := Finalizers instance @ [finalizerName]\<rparr>)])
       \<and> status_field (instance1\<lparr>status_field := Some s\<rparr>) = status_field instance
       \<and> Reconcile_body r req c =
           Reconcile_sync r (Join [Kind instance, Name instance] ''/'') action
             (instance1\<lparr>status_field := Some s\<rparr>) c
             [Cs_Enter, Client_Get req,
              Client_Update (instance\<lparr>Finalizers := Finalizers instance @ [finalizerName]\<rparr>)]
       \<and> GetHAStatus r (instance1\<lparr>status_field := Some s\<rparr>) =
           (case csutil_GetHAStatus_err r (instance1\<lparr>status_field := Some s\<rparr>) of
              Some e \<Rightarrow> Inl e | None \<Rightarrow> Inr s)"
  using assms
  by (simp add: Reconcile_attach_def Reconcile_body_def GetHAStatus_def Let_def
      split: option.splits)

text \<open>An instance: the API server returns the object without its status.\<close>

theorem C6_status_kept_on_attach_witness:
  "cs_Enter env_drops_status \<and> client_Get env_drops_status ''a'' = Inr res_st
   \<and> util_GetEnforcementAction env_drops_status res_st = Inr ''deny''
   \<and> IsZero (DeletionTimestamp res_st) \<and> \<not> HasFinalizer res_st
   \<and> status_field res_st = Some \<lparr>Enforced = False, Errors = [Error ''old'']\<rparr>
   \<and> client_Update env_drops_status (res_st\<lparr>Finalizers := Finalizers res_st @ [finalizerName]\<rparr>)
        = Inr (res_st\<lparr>Finalizers := [finalizerName], status_field := None\<rparr>)
   \<and> fst (Reconcile_attach env_drops_status res_st [Cs_Enter, Client_Get ''a'']) =
        Inr (res_st\<lparr>Finalizers := [finalizerName]\<rparr>)"
  using C6_status_kept_on_attach [of env_drops_status "''a''" res_st "''deny''"
              "\<lparr>Enforced = False, Errors = [Error ''old'']\<rparr>"
              "res_st\<lparr>Finalizers := [finalizerName], status_field := None\<rparr>" "[]"]
  by (simp add: env_drops_status_def res_st_def scenario_defs HasFinalizer_def finalizerName_def)

text \<open>
  Claim C5, as stated, fails: for the new resource without finalizer, one pass
  attaches the finalizer, registers the constraint with the engine, writes the enforced
  status and sets the cache entry.
\<close>

theorem C5_marker_then_registration_counterexample:
  "\<not> HasFinalizer res_a \<and> IsZero (DeletionTimestamp res_a)
   \<and> client_Get env_a ''a'' = Inr res_a
   \<and> trace (Reconcile env_a ''a'' []) =
       [Cs_Enter, Client_Get ''a'',
        Client_Update (res_a\<lparr>Finalizers := [finalizerName]\<rparr>),
        Log_Info ''handling constraint update'',
        Opa_GetConstraint (res_a\<lparr>Finalizers := [finalizerName],
                                 status_field := Some \<lparr>Enforced = False, Errors = []\<rparr>\<rparr>),
        Opa_AddConstraint (res_a\<lparr>Finalizers := [finalizerName]\<rparr>),
        logAddition,
        Client_Status_Update (res_a\<lparr>Finalizers := [finalizerName],
                                 status_field := Some \<lparr>Enforced = True, Errors = []\<rparr>\<rparr>),
        Reporter_reportConstraints \<lparr>enforcementAction = ''deny'', status = ''active''\<rparr> 1,
        Reporter_reportConstraints \<lparr>enforcementAction = ''deny'', status = ''error''\<rparr> 0,
        Reporter_reportConstraints \<lparr>enforcementAction = ''dryrun'', status = ''active''\<rparr> 0,
        Reporter_reportConstraints \<lparr>enforcementAction = ''dryrun'', status = ''error''\<rparr> 0,
        Cs_Exit]
   \<and> cache_out (Reconcile env_a ''a'' []) =
       [(''K/a'', \<lparr>enforcementAction = ''deny'', status = ''active''\<rparr>)]"
  by (simp add: scenario_defs Reconcile_defs)

text \<open>
  Claim C5, amended. For a resource without the finalizer and without a deletion
  timestamp, the pass first sends the resource with the finalizer appended. If that
  update fails, the pass ends there and asks for a requeue: no engine call, no status
  write, the cache unchanged. If it succeeds, the same pass goes on: when the status
  helpers do not fail, the contents differ, \<^verbatim>\<open>AddConstraint\<close> and the status write
  succeed, the pass registers the resource without its status, writes the enforced
  status, sets the cache entry to the enforcement action with the active status and
  reports the metrics.
\<close>

theorem C5_marker_then_registration:
  assumes en: "cs_Enter r" and get: "client_Get r req = Inr instance0"
    and act: "util_GetEnforcementAction r instance0 = Inr action"
    and live: "IsZero (DeletionTimestamp instance0)" and nofin: "\<not> HasFinalizer instance0"
  shows "(\<forall>e. client_Update r (instance0\<lparr>Finalizers := Finalizers instance0 @ [finalizerName]\<rparr>)
               = Inl e \<longrightarrow>
            Reconcile r req c =
              \<lparr>Requeue = True, err = None,
               inst = Some (instance0\<lparr>Finalizers := Finalizers instance0 @ [finalizerName]\<rparr>),
               status_var = None, cache_out = c,
               trace = [Cs_Enter, Client_Get req,
                        Client_Update
                          (instance0\<lparr>Finalizers := Finalizers instance0 @ [finalizerName]\<rparr>),
                        Cs_Exit],
               reportMetrics = False\<rparr>)
       \<and> (\<forall>instance1 i i'.
            client_Update r (instance0\<lparr>Finalizers := Finalizers instance0 @ [finalizerName]\<rparr>)
              = Inr instance1
          \<and> csutil_GetHAStatus_err r
               (case status_field instance0 of
                  None \<Rightarrow> instance1 | Some s \<Rightarrow> instance1\<lparr>status_field := Some s\<rparr>) = None
          \<and> SetHAStatus r
               (case status_field instance0 of
                  None \<Rightarrow> instance1 | Some s \<Rightarrow> instance1\<lparr>status_field := Some s\<rparr>)
               \<lparr>Enforced =
                  (case status_field instance0 of
                     None \<Rightarrow> (case status_field instance1 of
                                 None \<Rightarrow> False | Some s \<Rightarrow> Enforced s)
                   | Some s \<Rightarrow> Enforced s),
                Errors = []\<rparr> = Inr i
          \<and> content_differs r i
          \<and> opa_AddConstraint r (i\<lparr>status_field := None\<rparr>) = None
          \<and> csutil_SetHAStatus_err r i \<lparr>Enforced = True, Errors = []\<rparr> = None
          \<and> client_Status_Update r (i\<lparr>status_field := Some \<lparr>Enforced = True, Errors = []\<rparr>\<rparr>)
              = Inr i'
          \<longrightarrow>
            Reconcile r req c =
              \<lparr>Requeue = False, err = None, inst = Some i',
               status_var = Some \<lparr>Enforced = True, Errors = []\<rparr>,
               cache_out =
                 addConstraintKey (Join [Kind instance0, Name instance0] ''/'')
                   \<lparr>enforcementAction = action, status = ActiveStatus\<rparr> c,
               trace =
                 [Cs_Enter, Client_Get req,
                  Client_Update
                    (instance0\<lparr>Finalizers := Finalizers instance0 @ [finalizerName]\<rparr>),
                  Log_Info ''handling constraint update'',
                  Opa_GetConstraint i,
                  Opa_AddConstraint (i\<lparr>status_field := None\<rparr>),
                  logAddition,
                  Client_Status_Update
                    (i\<lparr>status_field := Some \<lparr>Enforced = True, Errors = []\<rparr>\<rparr>)]
                 @ snd (reportTotalConstraints r
                         (addConstraintKey (Join [Kind instance0, Name instance0] ''/'')
                            \<lparr>enforcementAction = action, status = ActiveStatus\<rparr> c))
                 @ [Cs_Exit],
               reportMetrics = True\<rparr>)"
proof (intro conjI allI impI)
  fix e
  assume "client_Update r (instance0\<lparr>Finalizers := Finalizers instance0 @ [finalizerName]\<rparr>) = Inl e"
  with assms show "Reconcile r req c =
              \<lparr>Requeue = True, err = None,
               inst = Some (instance0\<lparr>Finalizers := Finalizers instance0 @ [finalizerName]\<rparr>),
               status_var = None, cache_out = c,
               trace = [Cs_Enter, Client_Get req,
                        Client_Update
                          (instance0\<lparr>Finalizers := Finalizers instance0 @ [finalizerName]\<rparr>),
                        Cs_Exit],
               reportMetrics = False\<rparr>"
    by (simp add: Reconcile_def Reconcile_body_def Reconcile_attach_def Let_def)
next
  fix instance1 :: resource and i :: resource and i' :: resource
  define k where "k = Join [Kind instance0, Name instance0] ''/''"
  define restored where "restored =
    (case status_field instance0 of
       None \<Rightarrow> instance1 | Some s \<Rightarrow> instance1\<lparr>status_field := Some s\<rparr>)"
  define st0 where "st0 =
    (case status_field restored of None \<Rightarrow> \<lparr>Enforced = False, Errors = []\<rparr> | Some s \<Rightarrow> s)"
  define tr where "tr = [Cs_Enter, Client_Get req,
      Client_Update (instance0\<lparr>Finalizers := Finalizers instance0 @ [finalizerName]\<rparr>)]"
  assume a: "client_Update r (instance0\<lparr>Finalizers := Finalizers instance0 @ [finalizerName]\<rparr>)
              = Inr instance1
          \<and> csutil_GetHAStatus_err r
               (case status_field instance0 of
                  None \<Rightarrow> instance1 | Some s \<Rightarrow> instance1\<lparr>status_field := Some s\<rparr>) = None
          \<and> SetHAStatus r
               (case status_field instance0 of
                  None \<Rightarrow> instance1 | Some s \<Rightarrow> instance1\<lparr>status_field := Some s\<rparr>)
               \<lparr>Enforced =
                  (case status_field instance0 of
                     None \<Rightarrow> (case status_field instance1 of
                                 None \<Rightarrow> False | Some s \<Rightarrow> Enforced s)
                   | Some s \<Rightarrow> Enforced s),
                Errors = []\<rparr> = Inr i
          \<and> content_differs r i
          \<and> opa_AddConstraint r (i\<lparr>status_field := None\<rparr>) = None
          \<and> csutil_SetHAStatus_err r i \<lparr>Enforced = True, Errors = []\<rparr> = None
          \<and> client_Status_Update r (i\<lparr>status_field := Some \<lparr>Enforced = True, Errors = []\<rparr>\<rparr>)
              = Inr i'"
  have body: "Reconcile_body r req c = Reconcile_sync r k action restored c tr"
    using assms a
    by (simp add: Reconcile_body_def Reconcile_attach_def Let_def k_def restored_def tr_def)
  have g: "GetHAStatus r restored = Inr st0"
    using a by (simp add: GetHAStatus_def restored_def st0_def)
  have st0: "st0\<lparr>Errors := []\<rparr> =
      \<lparr>Enforced = (case status_field instance0 of
                     None \<Rightarrow> (case status_field instance1 of
                                 None \<Rightarrow> False | Some s \<Rightarrow> Enforced s)
                   | Some s \<Rightarrow> Enforced s), Errors = []\<rparr>"
    by (simp add: st0_def restored_def split: option.splits)
  have s: "SetHAStatus r restored (st0\<lparr>Errors := []\<rparr>) = Inr i"
    using a unfolding st0 by (simp add: restored_def)
  have d: "content_differs r i" and ad: "opa_AddConstraint r (i\<lparr>status_field := None\<rparr>) = None"
    and se: "csutil_SetHAStatus_err r i \<lparr>Enforced = True, Errors = []\<rparr> = None"
    and su: "client_Status_Update r (i\<lparr>status_field := Some \<lparr>Enforced = True, Errors = []\<rparr>\<rparr>)
              = Inr i'"
    using a by simp_all
  have "Reconcile_body r req c =
      \<lparr>Requeue = False, err = None, inst = Some i',
       status_var = Some \<lparr>Enforced = True, Errors = []\<rparr>,
       cache_out = addConstraintKey k \<lparr>enforcementAction = action, status = ActiveStatus\<rparr> c,
       trace = (tr @ [Log_Info ''handling constraint update'', Opa_GetConstraint i,
              Opa_AddConstraint (i\<lparr>status_field := None\<rparr>), logAddition]) @
           [Client_Status_Update (i\<lparr>status_field := Some \<lparr>Enforced = True, Errors = []\<rparr>\<rparr>)],
       reportMetrics = True\<rparr>"
    unfolding body sync_added [OF g s d ad] enforced_outcome [OF se] su by simp
  then show "Reconcile r req c =
              \<lparr>Requeue = False, err = None, inst = Some i',
               status_var = Some \<lparr>Enforced = True, Errors = []\<rparr>,
               cache_out =
                 addConstraintKey (Join [Kind instance0, Name instance0] ''/'')
                   \<lparr>enforcementAction = action, status = ActiveStatus\<rparr> c,
               trace =
                 [Cs_Enter, Client_Get req,
                  Client_Update
                    (instance0\<lparr>Finalizers := Finalizers instance0 @ [finalizerName]\<rparr>),
                  Log_Info ''handling constraint update'',
                  Opa_GetConstraint i,
                  Opa_AddConstraint (i\<lparr>status_field := None\<rparr>),
                  logAddition,
                  Client_Status_Update
                    (i\<lparr>status_field := Some \<lparr>Enforced = True, Errors = []\<rparr>\<rparr>)]
                 @ snd (reportTotalConstraints r
                         (addConstraintKey (Join [Kind instance0, Name instance0] ''/'')
                            \<lparr>enforcementAction = action, status = ActiveStatus\<rparr> c))
                 @ [Cs_Exit],
               reportMetrics = True\<rparr>"
    by (simp add: Reconcile_of_body Let_def k_def tr_def)
qed

text \<open>Instances: every call succeeds, and the update that attaches the finalizer
  fails.\<close>

theorem C5_marker_then_registration_witness:
  "cs_Enter env_a \<and> client_Get env_a ''a'' = Inr res_a
   \<and> util_GetEnforcementAction env_a res_a = Inr ''deny''
   \<and> IsZero (DeletionTimestamp res_a) \<and> \<not> HasFinalizer res_a
   \<and> client_Update env_a (res_a\<lparr>Finalizers := Finalizers res_a @ [finalizerName]\<rparr>)
       = Inr (res_a\<lparr>Finalizers := [finalizerName]\<rparr>)
   \<and> content_differs env_a
        (res_a\<lparr>Finalizers := [finalizerName],
               status_field := Some \<lparr>Enforced = False, Errors = []\<rparr>\<rparr>)
   \<and> inst (Reconcile env_a ''a'' []) =
        Some (res_a\<lparr>Finalizers := [finalizerName],
                    status_field := Some \<lparr>Enforced = True, Errors = []\<rparr>\<rparr>)
   \<and> cache_out (Reconcile env_a ''a'' []) =
        [(''K/a'', \<lparr>enforcementAction = ''deny'', status = ''active''\<rparr>)]
   \<and> client_Update env_attach_fails (res_a\<lparr>Finalizers := Finalizers res_a @ [finalizerName]\<rparr>)
       = Inl (OtherError ''conflict'')
   \<and> Requeue (Reconcile env_attach_fails ''a'' [])
   \<and> trace (Reconcile env_attach_fails ''a'' []) =
        [Cs_Enter, Client_Get ''a'', Client_Update (res_a\<lparr>Finalizers := [finalizerName]\<rparr>),
         Cs_Exit]"
  using C5_marker_then_registration [of env_a "''a''" res_a "''deny''" "[]"]
    C5_marker_then_registration [of env_attach_fails "''a''" res_a "''deny''" "[]"]
  by (simp add: env_attach_fails_def scenario_defs Reconcile_defs content_differs_def)

subsection \<open>Reporting the totals\<close>

text \<open>The operations on the cache, and so every pass, keep one entry per key, as a
  Go map does.\<close>

lemma distinct_addConstraintKey:
  "distinct (map fst c) \<Longrightarrow> distinct (map fst (addConstraintKey k t c))"
  by (simp add: addConstraintKey_def distinct_update)

lemma distinct_deleteConstraintKey:
  "distinct (map fst c) \<Longrightarrow> distinct (map fst (deleteConstraintKey k c))"
  by (simp add: deleteConstraintKey_def distinct_delete)

lemma enforced_cache:
  "cache_out (Reconcile_enforced r k a i st c tr) = c
   \<or> cache_out (Reconcile_enforced r k a i st c tr) =
       addConstraintKey k \<lparr>enforcementAction = a, status = ActiveStatus\<rparr> c"
  by (simp add: Reconcile_enforced_def Let_def split: sum.splits)

lemma sync_cache:
  "cache_out (Reconcile_sync r k a i c tr) = c
   \<or> (\<exists>t. cache_out (Reconcile_sync r k a i c tr) = addConstraintKey k t c)"
proof (cases "GetHAStatus r i")
  case (Inl e)
  then show ?thesis by (simp add: Reconcile_sync_def Let_def)
next
  case (Inr st0)
  note g = this
  show ?thesis
  proof (cases "SetHAStatus r i (st0\<lparr>Errors := []\<rparr>)")
    case (Inl e)
    with g show ?thesis by (simp add: Reconcile_sync_def Let_def)
  next
    case (Inr i1)
    note s = this
    show ?thesis
    proof (cases "content_differs r i1")
      case False
      show ?thesis
        unfolding sync_skipped [OF g s False] using enforced_cache by blast
    next
      case True
      show ?thesis
      proof (cases "opa_AddConstraint r (i1\<lparr>status_field := None\<rparr>)")
        case None
        show ?thesis
          unfolding sync_added [OF g s True None] using enforced_cache by blast
      next
        case (Some e)
        show ?thesis
          unfolding sync_add_failed [OF g s True Some] by (auto simp: add_failed_fields)
      qed
    qed
  qed
qed

lemma delete_cache:
  "cache_out (Reconcile_delete r k i c tr) = c
   \<or> cache_out (Reconcile_delete r k i c tr) = deleteConstraintKey k c"
  by (simp add: Reconcile_delete_def Let_def split: sum.splits)

lemma Reconcile_cache:
  "cache_out (Reconcile r req c) = c
   \<or> (\<exists>k t. cache_out (Reconcile r req c) = addConstraintKey k t c)
   \<or> (\<exists>k. cache_out (Reconcile r req c) = deleteConstraintKey k c)"
proof (cases "sync_entry r req")
  case (Some p)
  obtain i tr where "p = (i, tr)" by (cases p)
  with Some body_sync [of r req i tr c] obtain k a where
    "Reconcile_body r req c = Reconcile_sync r k a i c tr" by auto
  with sync_cache [of r k a i c tr] show ?thesis by (auto simp: Reconcile_fields)
next
  case None
  then have "cache_out (Reconcile_body r req c) = c
      \<or> (\<exists>k i tr. Reconcile_body r req c = Reconcile_delete r k i c tr)"
    by (auto simp: sync_entry_def Reconcile_body_def Let_def
        split: if_splits sum.splits prod.splits)
  then show ?thesis
    unfolding Reconcile_fields using delete_cache by metis
qed

lemma Reconcile_keeps_keys:
  "distinct (map fst c) \<Longrightarrow> distinct (map fst (cache_out (Reconcile r req c)))"
  using Reconcile_cache [of r req c]
  by (auto simp: distinct_addConstraintKey distinct_deleteConstraintKey)

lemma totals_loop_lookup0:
  "lookup0 (totals_loop vs totals) t = lookup0 totals t + int (length (filter (\<lambda>v. v = t) vs))"
  by (induction vs arbitrary: totals) (auto simp: lookup0_def)

lemma totals_count_tags: "lookup0 (totals_loop (map snd c) Map.empty) t = count_tags c t"
proof -
  have "lookup0 (totals_loop (map snd c) Map.empty) t =
          lookup0 Map.empty t + int (length (filter (\<lambda>v. v = t) (map snd c)))"
    by (rule totals_loop_lookup0)
  also have "\<dots> = count_tags c t"
    by (simp add: lookup0_def count_tags_def filter_map comp_def)
  finally show ?thesis .
qed

lemma reports_of_concat: "reports_of (concat xss) = concat (map reports_of xss)"
  by (induction xss) (simp_all add: reports_of_append reports_of_simps)

lemma reportTotalConstraints_reports:
  "reports_of (snd (reportTotalConstraints r c)) =
     concat (map (\<lambda>action.
       map (\<lambda>st. (\<lparr>enforcementAction = action, status = st\<rparr>,
                   count_tags c \<lparr>enforcementAction = action, status = st\<rparr>))
         (metrics_AllStatuses r))
       (util_KnownEnforcementActions r))"
  by (simp add: reportTotalConstraints_def Let_def reports_of_concat comp_def
      report_one_reports totals_count_tags)

lemma count_tags_card:
  assumes "distinct (map fst c)"
  shows "count_tags c t = int (card {k. map_of c k = Some t})"
proof -
  have "{k. map_of c k = Some t} = set (map fst (filter (\<lambda>kv. snd kv = t) c))"
    using assms by (auto simp: image_iff)
  moreover have "distinct (map fst (filter (\<lambda>kv. snd kv = t) c))"
    using assms by (rule distinct_map_filter)
  ultimately have "card {k. map_of c k = Some t} = length (filter (\<lambda>kv. snd kv = t) c)"
    using distinct_card [of "map fst (filter (\<lambda>kv. snd kv = t) c)"] by simp
  then show ?thesis by (simp add: count_tags_def)
qed

lemma distinct_cells:
  assumes "distinct as" and "distinct sts"
  shows "distinct (concat (map (\<lambda>a. map (\<lambda>s. \<lparr>enforcementAction = a, status = s\<rparr>) sts) as))"
  using assms(1)
proof (induction as)
  case Nil
  then show ?case by simp
next
  case (Cons a as)
  have "distinct (map (\<lambda>s. \<lparr>enforcementAction = a, status = s\<rparr>) sts)"
    using assms(2) by (simp add: distinct_map inj_on_def)
  with Cons show ?case by auto
qed

text \<open>
  Claim C7. \<^verbatim>\<open>reportTotalConstraints\<close> returns the cache unchanged, also at the end
  of a pass. It calls the reporter once for every enforcement action of
  \<^verbatim>\<open>util.KnownEnforcementActions\<close> and every status of \<^verbatim>\<open>metrics.AllStatuses\<close>, in
  that order, with the number of cache entries that carry these tags, which is zero for
  tags that no entry carries. When the two tables have no repetitions, the reported tags
  are the pairs of the cross product, each once; when the cache has one entry per key,
  a count is the number of keys mapped to the tags.
\<close>

theorem C7_report_totals:
  assumes keys: "distinct (map fst c)"
    and acts: "distinct (util_KnownEnforcementActions r)"
    and sts: "distinct (metrics_AllStatuses r)"
  shows "fst (reportTotalConstraints r c) = c
       \<and> reports_of (snd (reportTotalConstraints r c)) =
           concat (map (\<lambda>action.
             map (\<lambda>st. (\<lparr>enforcementAction = action, status = st\<rparr>,
                         count_tags c \<lparr>enforcementAction = action, status = st\<rparr>))
               (metrics_AllStatuses r))
             (util_KnownEnforcementActions r))
       \<and> distinct (map fst (reports_of (snd (reportTotalConstraints r c))))
       \<and> set (map fst (reports_of (snd (reportTotalConstraints r c)))) =
           {\<lparr>enforcementAction = action, status = st\<rparr> | action st.
              action \<in> set (util_KnownEnforcementActions r) \<and> st \<in> set (metrics_AllStatuses r)}
       \<and> (\<forall>t n. (t, n) \<in> set (reports_of (snd (reportTotalConstraints r c))) \<longrightarrow>
              n = int (card {k. map_of c k = Some t})
            \<and> n = int (length (filter (\<lambda>kv. snd kv = t) c)))
       \<and> cache_out (Reconcile r req c) = cache_out (Reconcile_body r req c)"
proof -
  have cells: "map fst (reports_of (snd (reportTotalConstraints r c))) =
      concat (map (\<lambda>a. map (\<lambda>s. \<lparr>enforcementAction = a, status = s\<rparr>) (metrics_AllStatuses r))
        (util_KnownEnforcementActions r))"
    by (simp add: reportTotalConstraints_reports map_concat comp_def)
  have d: "distinct (map fst (reports_of (snd (reportTotalConstraints r c))))"
    unfolding cells by (rule distinct_cells [OF acts sts])
  have s: "set (map fst (reports_of (snd (reportTotalConstraints r c)))) =
           {\<lparr>enforcementAction = action, status = st\<rparr> | action st.
              action \<in> set (util_KnownEnforcementActions r) \<and> st \<in> set (metrics_AllStatuses r)}"
    unfolding cells by auto
  have n: "n = int (card {k. map_of c k = Some t}) \<and> n = int (length (filter (\<lambda>kv. snd kv = t) c))"
    if "(t, n) \<in> set (reports_of (snd (reportTotalConstraints r c)))" for t n
  proof -
    from that have "n = count_tags c t"
      by (auto simp: reportTotalConstraints_reports)
    then show ?thesis using count_tags_card [OF keys, of t] by (simp add: count_tags_def)
  qed
  from d s n show ?thesis
    by (simp add: reportTotalConstraints_fst reportTotalConstraints_reports Reconcile_fields)
qed

text \<open>An instance: three entries, two of them with the same tags.\<close>

theorem C7_report_totals_witness:
  "distinct (map fst cache_ab)
   \<and> distinct (util_KnownEnforcementActions env_a) \<and> distinct (metrics_AllStatuses env_a)
   \<and> fst (reportTotalConstraints env_a cache_ab) = cache_ab
   \<and> reports_of (snd (reportTotalConstraints env_a cache_ab)) =
       [(\<lparr>enforcementAction = ''deny'', status = ''active''\<rparr>, 2),
        (\<lparr>enforcementAction = ''deny'', status = ''error''\<rparr>, 0),
        (\<lparr>enforcementAction = ''dryrun'', status = ''active''\<rparr>, 0),
        (\<lparr>enforcementAction = ''dryrun'', status = ''error''\<rparr>, 1)]"
  using C7_report_totals [of cache_ab env_a "''a''"]
  by (simp add: cache_ab_def env_a_def count_tags_def)

subsection \<open>Reconciling twice\<close>

lemma HasFinalizer_append: "HasFinalizer (i\<lparr>Finalizers := Finalizers i @ [finalizerName]\<rparr>)"
  by (simp add: HasFinalizer_def containsString_set)

lemma HasFinalizer_marked: "HasFinalizer (marked i)"
  by (simp add: marked_def HasFinalizer_append)

lemma HasFinalizer_status [simp]: "HasFinalizer (i\<lparr>status_field := s\<rparr>) = HasFinalizer i"
  by (simp add: HasFinalizer_def)

lemma marked_fields [simp]:
  "Kind (marked i) = Kind i" "Name (marked i) = Name i"
  "DeletionTimestamp (marked i) = DeletionTimestamp i"
  "spec_field (marked i) = spec_field i" "status_field (marked i) = status_field i"
  by (simp_all add: marked_def)

lemma status_update_same:
  "status_field (i :: resource) = s \<Longrightarrow> i\<lparr>status_field := s\<rparr> = i"
  "status_field (i :: resource) = s \<Longrightarrow> i\<lparr>Finalizers := fs, status_field := s\<rparr> = i\<lparr>Finalizers := fs\<rparr>"
  by (cases i, simp)+

lemma Reconcile_active_ok:
  assumes en: "cs_Enter e" and get: "client_Get e req = Inr i"
    and act: "util_GetEnforcementAction e i = Inr action"
    and live: "IsZero (DeletionTimestamp i)"
    and upd: "client_Update e = Inr" and supd: "client_Status_Update e = Inr"
    and ge: "\<forall>x. csutil_GetHAStatus_err e x = None"
    and se: "\<forall>x st. csutil_SetHAStatus_err e x st = None"
    and add: "\<forall>obj. opa_AddConstraint e obj = None"
  defines "i1 \<equiv> (marked i)\<lparr>status_field :=
              Some \<lparr>Enforced = (case status_field i of None \<Rightarrow> False | Some s \<Rightarrow> Enforced s),
                    Errors = []\<rparr>\<rparr>"
    and "i2 \<equiv> (marked i)\<lparr>status_field := Some \<lparr>Enforced = True, Errors = []\<rparr>\<rparr>"
    and "k \<equiv> Join [Kind i, Name i] ''/''"
  shows "Reconcile e req c =
     \<lparr>Requeue = False, err = None, inst = Some i2,
      status_var = Some \<lparr>Enforced = True, Errors = []\<rparr>,
      cache_out = addConstraintKey k \<lparr>enforcementAction = action, status = ActiveStatus\<rparr> c,
      trace = ([Cs_Enter, Client_Get req] @
               (if HasFinalizer i then [] else [Client_Update (marked i)]) @
               [Log_Info ''handling constraint update'', Opa_GetConstraint i1] @
               (if content_differs e i1
                then [Opa_AddConstraint (i1\<lparr>status_field := None\<rparr>), logAddition] else []) @
               [Client_Status_Update i2]) @
              snd (reportTotalConstraints e
                    (addConstraintKey k \<lparr>enforcementAction = action, status = ActiveStatus\<rparr> c)) @
              [Cs_Exit],
      reportMetrics = True\<rparr>"
proof -
  define tr where "tr = [Cs_Enter, Client_Get req] @
               (if HasFinalizer i then [] else [Client_Update (marked i)])"
  have body: "Reconcile_body e req c = Reconcile_sync e k action (marked i) c tr"
    using en get act live upd
    by (cases "status_field i")
       (simp_all add: Reconcile_body_def Reconcile_attach_def Let_def k_def tr_def marked_def
          status_update_same)
  define st0 where "st0 =
    (case status_field i of None \<Rightarrow> \<lparr>Enforced = False, Errors = []\<rparr> | Some s \<Rightarrow> s)"
  have g: "GetHAStatus e (marked i) = Inr st0"
    using ge by (simp add: GetHAStatus_def st0_def)
  have st0: "st0\<lparr>Errors := []\<rparr> =
      \<lparr>Enforced = (case status_field i of None \<Rightarrow> False | Some s \<Rightarrow> Enforced s), Errors = []\<rparr>"
    by (simp add: st0_def split: option.splits)
  have s: "SetHAStatus e (marked i) (st0\<lparr>Errors := []\<rparr>) = Inr i1"
    unfolding st0 using se by (simp add: SetHAStatus_def i1_def)
  have se1: "csutil_SetHAStatus_err e i1 \<lparr>Enforced = True, Errors = []\<rparr> = None"
    using se by simp
  have i12: "i1\<lparr>status_field := Some \<lparr>Enforced = True, Errors = []\<rparr>\<rparr> = i2"
    by (simp add: i1_def i2_def)
  have "Reconcile_body e req c =
     \<lparr>Requeue = False, err = None, inst = Some i2,
      status_var = Some \<lparr>Enforced = True, Errors = []\<rparr>,
      cache_out = addConstraintKey k \<lparr>enforcementAction = action, status = ActiveStatus\<rparr> c,
      trace = (tr @ [Log_Info ''handling constraint update'', Opa_GetConstraint i1] @
               (if content_differs e i1
                then [Opa_AddConstraint (i1\<lparr>status_field := None\<rparr>), logAddition] else [])) @
               [Client_Status_Update i2],
      reportMetrics = True\<rparr>"
  proof (cases "content_differs e i1")
    case True
    from add have ad: "opa_AddConstraint e (i1\<lparr>status_field := None\<rparr>) = None" by simp
    show ?thesis
      unfolding body sync_added [OF g s True ad] enforced_outcome [OF se1] i12
      using True by (simp add: supd)
  next
    case False
    show ?thesis
      unfolding body sync_skipped [OF g s False] enforced_outcome [OF se1] i12
      using False by (simp add: supd)
  qed
  then show ?thesis by (simp add: Reconcile_of_body Let_def tr_def)
qed


lemma world_env_fields [simp]:
  "cs_Enter (world_env r w) = True"
  "client_Update (world_env r w) = Inr"
  "client_Status_Update (world_env r w) = Inr"
  "opa_AddConstraint (world_env r w) = (\<lambda>obj. None)"
  "opa_RemoveConstraint (world_env r w) = (\<lambda>instance. None)"
  "client_Get (world_env r w) req =
     (case w_store w req of None \<Rightarrow> Inl (NotFound req) | Some instance \<Rightarrow> Inr instance)"
  "opa_GetConstraint (world_env r w) i =
     (case w_engine w (constraintKey_of i) of
        None \<Rightarrow> Inl (OtherError ''no such constraint'') | Some c' \<Rightarrow> Inr c')"
  "util_GetEnforcementAction (world_env r w) = util_GetEnforcementAction r"
  "csutil_GetHAStatus_err (world_env r w) = csutil_GetHAStatus_err r"
  "csutil_SetHAStatus_err (world_env r w) = csutil_SetHAStatus_err r"
  "constraints_SemanticEqual (world_env r w) = constraints_SemanticEqual r"
  by (simp_all add: world_env_def)

lemma fold_apply_event_quiet:
  "\<forall>ev \<in> set tr. \<not> is_opa_call ev \<and> \<not> is_client_write ev \<Longrightarrow> fold apply_event tr w = w"
proof (induction tr arbitrary: w)
  case Nil
  then show ?case by simp
next
  case (Cons ev tr)
  then show ?case by (cases ev) simp_all
qed

lemma fold_apply_event_reports:
  "fold apply_event (snd (reportTotalConstraints e c)) w = w"
proof (rule fold_apply_event_quiet)
  show "\<forall>ev \<in> set (snd (reportTotalConstraints e c)). \<not> is_opa_call ev \<and> \<not> is_client_write ev"
    using reportTotalConstraints_opa [of e c] reportTotalConstraints_client [of e c]
    by (simp add: filter_empty_conv)
qed

lemma constraintKey_of_simps [simp]:
  "constraintKey_of (i\<lparr>status_field := s\<rparr>) = constraintKey_of i"
  "constraintKey_of (marked i) = constraintKey_of i"
  by (simp_all add: constraintKey_of_def)

text \<open>One pass over a live resource in a world whose helpers do not fail.\<close>

lemma pass_active:
  assumes ge: "\<forall>x. csutil_GetHAStatus_err r x = None"
    and se: "\<forall>x st. csutil_SetHAStatus_err r x st = None"
    and st: "w_store w req = Some i" and nm: "Name i = req"
    and live: "IsZero (DeletionTimestamp i)"
    and act: "util_GetEnforcementAction r i = Inr action"
  defines "i1 \<equiv> (marked i)\<lparr>status_field :=
              Some \<lparr>Enforced = (case status_field i of None \<Rightarrow> False | Some s \<Rightarrow> Enforced s),
                    Errors = []\<rparr>\<rparr>"
    and "i2 \<equiv> (marked i)\<lparr>status_field := Some \<lparr>Enforced = True, Errors = []\<rparr>\<rparr>"
  shows "fst (pass r req w) =
           w\<lparr>w_store := (w_store w)(req \<mapsto> i2),
             w_engine := (if content_differs (world_env r w) i1
                          then (w_engine w)(constraintKey_of i \<mapsto> (marked i)\<lparr>status_field := None\<rparr>)
                          else w_engine w),
             w_cache := addConstraintKey (constraintKey_of i)
                          \<lparr>enforcementAction = action, status = ActiveStatus\<rparr> (w_cache w)\<rparr>"
    and "filter is_opa_call (trace (snd (pass r req w))) =
           Opa_GetConstraint i1 #
             (if content_differs (world_env r w) i1
              then [Opa_AddConstraint ((marked i)\<lparr>status_field := None\<rparr>)] else [])"
    and "err (snd (pass r req w)) = None" and "\<not> Requeue (snd (pass r req w))"
    and "inst (snd (pass r req w)) = Some i2"
proof -
  let ?e = "world_env r w"
  have out: "Reconcile ?e req (w_cache w) =
     \<lparr>Requeue = False, err = None, inst = Some i2,
      status_var = Some \<lparr>Enforced = True, Errors = []\<rparr>,
      cache_out = addConstraintKey (Join [Kind i, Name i] ''/'')
                    \<lparr>enforcementAction = action, status = ActiveStatus\<rparr> (w_cache w),
      trace = ([Cs_Enter, Client_Get req] @
               (if HasFinalizer i then [] else [Client_Update (marked i)]) @
               [Log_Info ''handling constraint update'', Opa_GetConstraint i1] @
               (if content_differs ?e i1
                then [Opa_AddConstraint (i1\<lparr>status_field := None\<rparr>), logAddition] else []) @
               [Client_Status_Update i2]) @
              snd (reportTotalConstraints ?e
                    (addConstraintKey (Join [Kind i, Name i] ''/'')
                       \<lparr>enforcementAction = action, status = ActiveStatus\<rparr> (w_cache w))) @
              [Cs_Exit],
      reportMetrics = True\<rparr>"
    unfolding i1_def i2_def
    by (rule Reconcile_active_ok) (use assms in simp_all)
  have strip: "i1\<lparr>status_field := None\<rparr> = (marked i)\<lparr>status_field := None\<rparr>"
    by (simp add: i1_def)
  have sw: "store_write i2 s = s(req \<mapsto> i2)" "store_write (marked i) s = s(req \<mapsto> marked i)" for s
    using live nm by (simp_all add: store_write_def i2_def)
  show "fst (pass r req w) =
           w\<lparr>w_store := (w_store w)(req \<mapsto> i2),
             w_engine := (if content_differs (world_env r w) i1
                          then (w_engine w)(constraintKey_of i \<mapsto> (marked i)\<lparr>status_field := None\<rparr>)
                          else w_engine w),
             w_cache := addConstraintKey (constraintKey_of i)
                          \<lparr>enforcementAction = action, status = ActiveStatus\<rparr> (w_cache w)\<rparr>"
    by (simp add: pass_def Let_def out fold_apply_event_reports strip sw logAddition_def
        constraintKey_of_def [symmetric]) (simp add: constraintKey_of_def)
  show "filter is_opa_call (trace (snd (pass r req w))) =
           Opa_GetConstraint i1 #
             (if content_differs (world_env r w) i1
              then [Opa_AddConstraint ((marked i)\<lparr>status_field := None\<rparr>)] else [])"
    by (simp add: pass_def Let_def out reportTotalConstraints_opa strip logAddition_def)
  show "err (snd (pass r req w)) = None" "\<not> Requeue (snd (pass r req w))"
    "inst (snd (pass r req w)) = Some i2"
    by (simp_all add: pass_def Let_def out)
qed


lemma marked_idem: "HasFinalizer i \<Longrightarrow> marked i = i"
  by (simp add: marked_def)

text \<open>
  Claim C4, as stated, fails: the second pass over the unchanged resource calls the
  engine once more, to fetch its copy of the constraint for the comparison.
\<close>

theorem C4_second_pass_idempotent_counterexample:
  "w_store (fst (pass env_a ''a'' world_a)) ''a'' =
     Some (res_a\<lparr>Finalizers := [finalizerName],
                 status_field := Some \<lparr>Enforced = True, Errors = []\<rparr>\<rparr>)
   \<and> filter is_opa_call (trace (snd (pass env_a ''a'' (fst (pass env_a ''a'' world_a))))) =
       [Opa_GetConstraint
          (res_a\<lparr>Finalizers := [finalizerName],
                 status_field := Some \<lparr>Enforced = True, Errors = []\<rparr>\<rparr>)]"
  by (simp add: pass_def world_env_def store_write_def constraintKey_of_def scenario_defs
      Reconcile_defs)

text \<open>
  Claim C4, amended. In a world whose store and engine keep what was written and whose
  helpers do not fail, with a semantic equality that is reflexive and ignores the
  status, take a stored resource without deletion timestamp and reconcile it twice. The
  second pass makes no call that changes the engine (no \<^verbatim>\<open>AddConstraint\<close>, no
  \<^verbatim>\<open>RemoveConstraint\<close>); its one call of the engine is the \<^verbatim>\<open>GetConstraint\<close> fetch.
  It leaves the store (status and finalizers of the resource), the engine and the cache
  as the first pass left them: the resource carries the finalizer and the enforced
  status without errors, and the cache entry is the enforcement action with the active
  status.
\<close>

theorem C4_second_pass_idempotent:
  assumes ge: "\<forall>x. csutil_GetHAStatus_err r x = None"
    and se: "\<forall>x st. csutil_SetHAStatus_err r x st = None"
    and refl: "\<forall>a. constraints_SemanticEqual r a a"
    and sem: "\<forall>a b s. constraints_SemanticEqual r (a\<lparr>status_field := s\<rparr>) b
                       = constraints_SemanticEqual r a b"
    and act: "\<forall>fs s. util_GetEnforcementAction r
                        (instance0\<lparr>Finalizers := fs, status_field := s\<rparr>) = Inr action"
    and st: "w_store w0 req = Some instance0" and nm: "Name instance0 = req"
    and live: "IsZero (DeletionTimestamp instance0)"
  shows "filter is_opa_write (trace (snd (pass r req (fst (pass r req w0))))) = []
       \<and> (\<exists>i. filter is_opa_call (trace (snd (pass r req (fst (pass r req w0)))))
                 = [Opa_GetConstraint i])
       \<and> w_store (fst (pass r req (fst (pass r req w0)))) = w_store (fst (pass r req w0))
       \<and> w_engine (fst (pass r req (fst (pass r req w0)))) = w_engine (fst (pass r req w0))
       \<and> w_cache (fst (pass r req (fst (pass r req w0)))) = w_cache (fst (pass r req w0))
       \<and> (\<exists>i. w_store (fst (pass r req w0)) req = Some i \<and> HasFinalizer i
              \<and> status_field i = Some \<lparr>Enforced = True, Errors = []\<rparr>
              \<and> inst (snd (pass r req (fst (pass r req w0)))) = Some i)
       \<and> map_of (w_cache (fst (pass r req w0))) (constraintKey_of instance0) =
           Some \<lparr>enforcementAction = action, status = ActiveStatus\<rparr>
       \<and> err (snd (pass r req (fst (pass r req w0)))) = None
       \<and> \<not> Requeue (snd (pass r req (fst (pass r req w0))))"
proof -
  define i1 where "i1 = (marked instance0)\<lparr>status_field :=
      Some \<lparr>Enforced = (case status_field instance0 of None \<Rightarrow> False | Some s \<Rightarrow> Enforced s),
            Errors = []\<rparr>\<rparr>"
  define i2 where "i2 = (marked instance0)\<lparr>status_field := Some \<lparr>Enforced = True, Errors = []\<rparr>\<rparr>"
  define k where "k = constraintKey_of instance0"
  define tag where "tag = \<lparr>enforcementAction = action, status = ActiveStatus\<rparr>"
  define w1 where "w1 = fst (pass r req w0)"
  have a0: "util_GetEnforcementAction r instance0 = Inr action"
    using act [rule_format, where fs = "Finalizers instance0" and s = "status_field instance0"]
    by simp
  have a2: "util_GetEnforcementAction r i2 = Inr action"
    using act [rule_format, where fs = "Finalizers instance0"
                 and s = "Some \<lparr>Enforced = True, Errors = []\<rparr>"]
      act [rule_format, where fs = "Finalizers instance0 @ [finalizerName]"
             and s = "Some \<lparr>Enforced = True, Errors = []\<rparr>"]
    by (simp add: i2_def marked_def)
  note p1 = pass_active [OF ge se st nm live a0, folded i1_def i2_def k_def tag_def w1_def]
  have w1: "w1 = w0\<lparr>w_store := (w_store w0)(req \<mapsto> i2),
             w_engine := (if content_differs (world_env r w0) i1
                          then (w_engine w0)(k \<mapsto> (marked instance0)\<lparr>status_field := None\<rparr>)
                          else w_engine w0),
             w_cache := addConstraintKey k tag (w_cache w0)\<rparr>"
    by (rule p1(1))
  have st1: "w_store w1 req = Some i2" by (simp add: w1)
  have nm2: "Name i2 = req" using nm by (simp add: i2_def)
  have live2: "IsZero (DeletionTimestamp i2)" using live by (simp add: i2_def)
  have fin2: "HasFinalizer i2" by (simp add: i2_def HasFinalizer_marked)
  have m2: "marked i2 = i2" by (rule marked_idem [OF fin2])
  have s2: "status_field i2 = Some \<lparr>Enforced = True, Errors = []\<rparr>" by (simp add: i2_def)
  have i22: "i2\<lparr>status_field := Some \<lparr>Enforced = True, Errors = []\<rparr>\<rparr> = i2"
    by (simp add: i2_def)
  have k2: "constraintKey_of i2 = k" by (simp add: i2_def k_def)
  have k1: "constraintKey_of i1 = k" by (simp add: i1_def k_def)
  have sem': "constraints_SemanticEqual r (a\<lparr>status_field := s\<rparr>) b
                = constraints_SemanticEqual r a b" for a b s
    using sem by blast
  have sem12: "constraints_SemanticEqual r i2 b = constraints_SemanticEqual r i1 b" for b
    by (simp add: i1_def i2_def sem')
  have semobj: "constraints_SemanticEqual r i2 ((marked instance0)\<lparr>status_field := None\<rparr>)"
    using refl [rule_format, of "(marked instance0)\<lparr>status_field := None\<rparr>"]
    by (simp add: i2_def sem')
  have same: "\<not> content_differs (world_env r w1) i2"
  proof (cases "content_differs (world_env r w0) i1")
    case True
    then show ?thesis
      using semobj by (simp add: content_differs_def w1 k2)
  next
    case False
    then show ?thesis
      by (simp add: content_differs_def w1 k2 k1 sem12 split: option.splits)
  qed
  note p2 = pass_active [OF ge se st1 nm2 live2 a2, unfolded m2 s2 i22 k2, simplified,
      unfolded i22, folded tag_def]
  have store2: "w_store (fst (pass r req w1)) = w_store w1"
    unfolding p2(1) using same by (simp add: w1)
  have engine2: "w_engine (fst (pass r req w1)) = w_engine w1"
    unfolding p2(1) using same by simp
  have cache2: "w_cache (fst (pass r req w1)) = w_cache w1"
    unfolding p2(1) by (simp add: w1 addConstraintKey_def)
  have calls2: "filter is_opa_call (trace (snd (pass r req w1))) = [Opa_GetConstraint i2]"
    unfolding p2(2) using same by simp
  have "filter is_opa_write (filter is_opa_call (trace (snd (pass r req w1)))) =
        filter is_opa_write (trace (snd (pass r req w1)))"
    by (rule filter_filter [THEN trans]) (rule filter_cong, simp, case_tac x, simp_all)
  with calls2 have writes2: "filter is_opa_write (trace (snd (pass r req w1))) = []" by simp
  have cache1: "map_of (w_cache w1) k = Some tag"
    by (simp add: w1 map_of_addConstraintKey)
  from writes2 calls2 store2 engine2 cache2 st1 fin2 s2 cache1 p2(3) p2(4) p2(5)
  show ?thesis
    unfolding w1_def [symmetric] k_def [symmetric] tag_def [symmetric] by auto
qed

text \<open>An instance: the resource of the scenarios in a world with an empty engine.\<close>

theorem C4_second_pass_idempotent_witness:
  "(\<forall>x. csutil_GetHAStatus_err env_a x = None)
   \<and> (\<forall>x st. csutil_SetHAStatus_err env_a x st = None)
   \<and> (\<forall>a. constraints_SemanticEqual env_a a a)
   \<and> (\<forall>a b s. constraints_SemanticEqual env_a (a\<lparr>status_field := s\<rparr>) b
                = constraints_SemanticEqual env_a a b)
   \<and> (\<forall>fs s. util_GetEnforcementAction env_a
                 (res_a\<lparr>Finalizers := fs, status_field := s\<rparr>) = Inr ''deny'')
   \<and> w_store world_a ''a'' = Some res_a \<and> Name res_a = ''a''
   \<and> IsZero (DeletionTimestamp res_a)
   \<and> filter is_opa_write (trace (snd (pass env_a ''a'' (fst (pass env_a ''a'' world_a))))) = []
   \<and> w_store (fst (pass env_a ''a'' (fst (pass env_a ''a'' world_a))))
       = w_store (fst (pass env_a ''a'' world_a))
   \<and> w_engine (fst (pass env_a ''a'' (fst (pass env_a ''a'' world_a))))
       = w_engine (fst (pass env_a ''a'' world_a))
   \<and> w_cache (fst (pass env_a ''a'' (fst (pass env_a ''a'' world_a))))
       = w_cache (fst (pass env_a ''a'' world_a))"
proof -
  have h: "\<forall>x. csutil_GetHAStatus_err env_a x = None"
    "\<forall>x st. csutil_SetHAStatus_err env_a x st = None"
    "\<forall>a. constraints_SemanticEqual env_a a a"
    "\<forall>a b s. constraints_SemanticEqual env_a (a\<lparr>status_field := s\<rparr>) b
                = constraints_SemanticEqual env_a a b"
    "\<forall>fs s. util_GetEnforcementAction env_a
                 (res_a\<lparr>Finalizers := fs, status_field := s\<rparr>) = Inr ''deny''"
    "w_store world_a ''a'' = Some res_a" "Name res_a = ''a''"
    "IsZero (DeletionTimestamp res_a)"
    by (simp_all add: env_a_def world_a_def res_a_def)
  from C4_second_pass_idempotent [OF h] h show ?thesis by blast
qed

end
